theory Spec2Isabelle
  imports Complex_Main
begin

section \<open>Numbers, vectors and errors\<close>

text \<open>
  The scripts compute with Python floats and \<open>mathutils.Vector\<close>. The embedding takes the
  coordinates as exact real numbers: every comparison, product and quotient is the one
  the source writes, evaluated without rounding. A Python float division whose divisor
  is zero raises \<open>ZeroDivisionError\<close>; that is a branch of the model. Reading an
  attribute of \<open>None\<close> raises \<open>AttributeError\<close>.
\<close>

datatype error = ZeroDivisionError | AttributeError

type_synonym vec3 = "real \<times> real \<times> real"

fun vadd :: "vec3 \<Rightarrow> vec3 \<Rightarrow> vec3" where
  "vadd (a1, a2, a3) (b1, b2, b3) = (a1 + b1, a2 + b2, a3 + b3)"

fun vsub :: "vec3 \<Rightarrow> vec3 \<Rightarrow> vec3" where
  "vsub (a1, a2, a3) (b1, b2, b3) = (a1 - b1, a2 - b2, a3 - b3)"

fun smul :: "real \<Rightarrow> vec3 \<Rightarrow> vec3" where
  "smul k (a1, a2, a3) = (k * a1, k * a2, k * a3)"

fun dot :: "vec3 \<Rightarrow> vec3 \<Rightarrow> real" where
  "dot (a1, a2, a3) (b1, b2, b3) = a1 * b1 + a2 * b2 + a3 * b3"

fun cross :: "vec3 \<Rightarrow> vec3 \<Rightarrow> vec3" where
  "cross (a1, a2, a3) (b1, b2, b3) = (a2 * b3 - a3 * b2, a3 * b1 - a1 * b3, a1 * b2 - a2 * b1)"

definition vlength :: "vec3 \<Rightarrow> real" where
  "vlength a = sqrt (dot a a)"

section \<open>The mirror engine (mesh\_mirror\_script.py)\<close>

subsection \<open>Data\<close>

text \<open>
  A vertex of the mirror mesh carries a position and a normal. A face of the mirror mesh
  is a triangle (the script triangulates the mirror object first): its face normal, its
  three corners, its \<open>tag\<close> attribute, and \<open>link\<close>, the faces that
  \<open>for edge in face.edges: for otherFace in edge.link_faces\<close> enumerates, in that order.
  Faces are referred to by their position in the mesh's face list; an index outside the
  list denotes no face.
\<close>

record BMVert =
  co :: vec3
  normal :: vec3

record BMFace =
  fnormal :: vec3
  v0 :: BMVert
  v1 :: BMVert
  v2 :: BMVert
  tag :: bool
  link :: "nat list"

text \<open>The class attributes of \<open>MirrorMesh\<close> that the functions below read; \<open>execute\<close> sets
  \<open>biasNeg\<close> to \<open>-bias\<close>.\<close>

record settings =
  biasNeg :: real
  smoothed :: bool
  cull :: bool
  closestOnly :: bool
  onlyIntersecting :: bool

text \<open>\<open>largeFloat = 10000000\<close>\<close>

definition largeFloat :: real where
  "largeFloat = 10000000"

text \<open>
  \<open>class MirrorData\<close>: the fields \<open>_u _v _w _t _mirrorTri _intersected\<close> (\<open>_n\<close> is
  never read). \<open>mirrorTri\<close> is the index of the mirror face.
\<close>

record MirrorData =
  m_u :: real
  m_v :: real
  m_w :: real
  m_t :: real
  mirrorTri :: nat
  intersected :: bool

text \<open>\<open>class SearchData\<close>, one per vertex of the source mesh.\<close>

record SearchData =
  closeDistance :: real
  closeVert :: "nat option"
  mirrorData :: "MirrorData option"

definition SearchData_init :: SearchData where
  "SearchData_init = \<lparr>closeDistance = largeFloat, closeVert = None, mirrorData = None\<rparr>"

definition mirrored :: "SearchData \<Rightarrow> bool" where
  "mirrored s = (mirrorData s \<noteq> None)"

definition notMirrored :: "SearchData \<Rightarrow> bool" where
  "notMirrored s = (mirrorData s = None)"

definition setClosestMirror :: "SearchData \<Rightarrow> MirrorData \<Rightarrow> SearchData" where
  "setClosestMirror s md =
     (case mirrorData s of
        None \<Rightarrow> s\<lparr>mirrorData := Some md\<rparr>
      | Some old \<Rightarrow> if m_t md < m_t old then s\<lparr>mirrorData := Some md\<rparr> else s)"

definition setMirror :: "SearchData \<Rightarrow> MirrorData \<Rightarrow> SearchData" where
  "setMirror s md = s\<lparr>mirrorData := Some md\<rparr>"

subsection \<open>The triangle intersection test\<close>

text \<open>
  \<open>triIntersection(vertCo, mTri)\<close>. The four quotients of the source are taken in its
  order: the three offsets along the corner normals, then \<open>invDenom\<close>. Each of them
  raises on a zero divisor, so the first zero divisor decides the result.

  The tests for a zero divisor are made here on exact values. The script makes them on
  rounded floats: a small divisor can round to zero, and a divisor that is zero over the
  reals can round to a value that is not. What is proved below about where the test
  raises is therefore stated for a divisor that is zero without any rounding (a face
  normal \<open>(0, 0, 0)\<close>, or the small exact values of the concrete inputs).
\<close>

definition triIntersection :: "settings \<Rightarrow> vec3 \<Rightarrow> BMFace list \<Rightarrow> nat \<Rightarrow> error + MirrorData option" where
  "triIntersection cfg vertCo mm k =
     (let mTri = mm ! k;
          t = dot (fnormal mTri) (vsub vertCo (co (v0 mTri)))
      in if cull cfg \<and> t < 0 then Inr None
         else if dot (fnormal mTri) (normal (v0 mTri)) = 0 then Inl ZeroDivisionError
         else if dot (fnormal mTri) (normal (v1 mTri)) = 0 then Inl ZeroDivisionError
         else if dot (fnormal mTri) (normal (v2 mTri)) = 0 then Inl ZeroDivisionError
         else
           let p0 = vadd (smul (t / dot (fnormal mTri) (normal (v0 mTri))) (normal (v0 mTri))) (co (v0 mTri));
               p1 = vadd (smul (t / dot (fnormal mTri) (normal (v1 mTri))) (normal (v1 mTri))) (co (v1 mTri));
               p2 = vadd (smul (t / dot (fnormal mTri) (normal (v2 mTri))) (normal (v2 mTri))) (co (v2 mTri));
               e0 = vsub p1 p0;
               e1 = vsub p2 p0;
               e2 = vsub vertCo p0;
               d00 = dot e0 e0;
               d01 = dot e0 e1;
               d11 = dot e1 e1;
               d20 = dot e2 e0;
               d21 = dot e2 e1
           in if d00 * d11 - d01 * d01 = 0 then Inl ZeroDivisionError
              else
                let invDenom = 1 / (d00 * d11 - d01 * d01);
                    v = (d11 * d20 - d01 * d21) * invDenom;
                    w = (d00 * d21 - d01 * d20) * invDenom;
                    u = 1 - v - w
                in Inr (Some \<lparr>m_u = u, m_v = v, m_w = w, m_t = t, mirrorTri = k,
                              intersected = (u > biasNeg cfg \<and> v > biasNeg cfg \<and> w > biasNeg cfg)\<rparr>))"

text \<open>\<open>mDat is not None and mDat._intersected\<close>, as the record it lets through.\<close>

definition valid_hit :: "MirrorData option \<Rightarrow> MirrorData option" where
  "valid_hit r = (case r of None \<Rightarrow> None | Some d \<Rightarrow> if intersected d then Some d else None)"

subsection \<open>The seed search\<close>

text \<open>
  \<open>findClosestTri(vert, mirrorMesh, searchData)\<close>: the loop over \<open>mirrorMesh.faces\<close>, over
  the face indices in their order; \<open>vi\<close> is \<open>vert.index\<close>.
\<close>

fun findClosestTri_loop ::
  "settings \<Rightarrow> vec3 \<Rightarrow> nat \<Rightarrow> BMFace list \<Rightarrow> nat list \<Rightarrow> SearchData list \<Rightarrow> error + SearchData list" where
  "findClosestTri_loop cfg vertCo vi mm [] sd = Inr sd"
| "findClosestTri_loop cfg vertCo vi mm (tri # tris) sd =
     (case triIntersection cfg vertCo mm tri of
        Inl e \<Rightarrow> Inl e
      | Inr mDat \<Rightarrow>
          (case valid_hit mDat of
             Some d \<Rightarrow> findClosestTri_loop cfg vertCo vi mm tris (sd[vi := setClosestMirror (sd ! vi) d])
           | None \<Rightarrow> findClosestTri_loop cfg vertCo vi mm tris sd))"

definition findClosestTri ::
  "settings \<Rightarrow> vec3 \<Rightarrow> nat \<Rightarrow> BMFace list \<Rightarrow> SearchData list \<Rightarrow> error + SearchData list" where
  "findClosestTri cfg vertCo vi mm sd = findClosestTri_loop cfg vertCo vi mm [0..<length mm] sd"

text \<open>\<open>findDistance(vert, mTri, searchData)\<close>\<close>

definition findDistance :: "vec3 \<Rightarrow> nat \<Rightarrow> nat \<Rightarrow> BMFace list \<Rightarrow> SearchData list \<Rightarrow> SearchData list" where
  "findDistance vertCo vi mTri mm sd =
     (let t = dot (fnormal (mm ! mTri)) (vsub vertCo (co (v0 (mm ! mTri))));
          mDat = \<lparr>m_u = 0, m_v = 0, m_w = 0, m_t = t, mirrorTri = mTri, intersected = False\<rparr>
      in sd[vi := setMirror (sd ! vi) mDat])"

subsection \<open>The adjacency search over the mirror mesh\<close>

text \<open>
  \<open>queueConnectedFaces(face, mMesh, queue, tagList)\<close>: the first argument is the list
  \<open>link\<close> of the face; the queue is a list read at its head and extended at its end.
\<close>

fun queueConnectedFaces ::
  "nat list \<Rightarrow> BMFace list \<times> nat list \<times> nat list \<Rightarrow> BMFace list \<times> nat list \<times> nat list" where
  "queueConnectedFaces [] s = s"
| "queueConnectedFaces (otherFace # fs) (mm, queue, tagList) =
     (if otherFace < length mm \<and> \<not> tag (mm ! otherFace)
      then queueConnectedFaces fs
             (mm[otherFace := (mm ! otherFace)\<lparr>tag := True\<rparr>], queue @ [otherFace], tagList @ [otherFace])
      else queueConnectedFaces fs (mm, queue, tagList))"

definition untagged :: "BMFace list \<Rightarrow> nat" where
  "untagged mm = length (filter (\<lambda>f. \<not> tag f) mm)"

lemma filter_length_update_drop:
  "i < length xs \<Longrightarrow> P (xs ! i) \<Longrightarrow> \<not> P y \<Longrightarrow>
   Suc (length (filter P (xs[i := y]))) = length (filter P xs)"
proof (induction xs arbitrary: i)
  case Nil
  then show ?case by simp
next
  case (Cons x xs)
  show ?case
  proof (cases i)
    case 0
    with Cons.prems show ?thesis by simp
  next
    case (Suc j)
    with Cons.prems have "Suc (length (filter P (xs[j := y]))) = length (filter P xs)"
      by (intro Cons.IH) simp_all
    with Suc show ?thesis by simp
  qed
qed

lemma queueConnectedFaces_measure:
  "queueConnectedFaces fs (mm, queue, tagList) = (mm', queue', tagList') \<Longrightarrow>
   untagged mm' + length queue' = untagged mm + length queue"
proof (induction fs arbitrary: mm queue tagList)
  case Nil
  then show ?case by simp
next
  case (Cons f fs)
  show ?case
  proof (cases "f < length mm \<and> \<not> tag (mm ! f)")
    case True
    then have "Suc (untagged (mm[f := (mm ! f)\<lparr>tag := True\<rparr>])) = untagged mm"
      unfolding untagged_def by (intro filter_length_update_drop) simp_all
    moreover from Cons.prems True
    have "untagged mm' + length queue' =
          untagged (mm[f := (mm ! f)\<lparr>tag := True\<rparr>]) + length (queue @ [f])"
      by (intro Cons.IH) simp
    ultimately show ?thesis by simp
  next
    case False
    with Cons.prems have "queueConnectedFaces fs (mm, queue, tagList) = (mm', queue', tagList')"
      by auto
    then show ?thesis by (rule Cons.IH)
  qed
qed

lemma queueConnectedFaces_measure_case:
  "(case queueConnectedFaces fs (mm, queue, tagList) of
      (mm', queue', tagList') \<Rightarrow> untagged mm' + length queue') = untagged mm + length queue"
  by (cases "queueConnectedFaces fs (mm, queue, tagList)") (auto dest: queueConnectedFaces_measure)

text \<open>
  The \<open>while not faceQueue.empty()\<close> loop of \<open>findFirstTri\<close>. A hit stores the record in
  \<open>searchData[vert.index]\<close> and leaves the loop.
\<close>

function findFirstTri_loop ::
  "settings \<Rightarrow> vec3 \<Rightarrow> nat \<Rightarrow> SearchData list \<Rightarrow> BMFace list \<Rightarrow> nat list \<Rightarrow> nat list
   \<Rightarrow> error + (SearchData list \<times> BMFace list \<times> nat list)" where
  "findFirstTri_loop cfg vertCo vi sd mm [] tagList = Inr (sd, mm, tagList)"
| "findFirstTri_loop cfg vertCo vi sd mm (face # queue) tagList =
     (case triIntersection cfg vertCo mm face of
        Inl e \<Rightarrow> Inl e
      | Inr mDat \<Rightarrow>
          (case valid_hit mDat of
             Some d \<Rightarrow> Inr (sd[vi := setMirror (sd ! vi) d], mm, tagList)
           | None \<Rightarrow>
               (case queueConnectedFaces (link (mm ! face)) (mm, queue, tagList) of
                  (mm', queue', tagList') \<Rightarrow> findFirstTri_loop cfg vertCo vi sd mm' queue' tagList')))"
  by pat_completeness auto
termination
  apply (relation "measure (\<lambda>(cfg, vertCo, vi, sd, mm, queue, tagList). untagged mm + length queue)")
   apply simp
  apply (simp add: queueConnectedFaces_measure_case)
  done

text \<open>
  \<open>findFirstTri(vert, lastMFace, mirrorMesh, searchData)\<close>: tag and queue the start face,
  run the loop, then \<open>for f in taggedFaces: f.tag = False\<close>.
\<close>

definition findFirstTri ::
  "settings \<Rightarrow> vec3 \<Rightarrow> nat \<Rightarrow> nat \<Rightarrow> SearchData list \<Rightarrow> BMFace list
   \<Rightarrow> error + (SearchData list \<times> BMFace list)" where
  "findFirstTri cfg vertCo vi lastMFace sd mm =
     (case findFirstTri_loop cfg vertCo vi sd
             (mm[lastMFace := (mm ! lastMFace)\<lparr>tag := True\<rparr>]) [lastMFace] [lastMFace] of
        Inl e \<Rightarrow> Inl e
      | Inr (sd', mm', taggedFaces) \<Rightarrow>
          Inr (sd', fold (\<lambda>f m. m[f := (m ! f)\<lparr>tag := False\<rparr>]) taggedFaces mm'))"

subsection \<open>Moving a vertex\<close>

text \<open>\<open>MirrorData.calcFlatMirrorVector\<close> and \<open>MirrorData.calcSmoothMirrorVector\<close>\<close>

definition calcFlatMirrorVector :: "BMFace list \<Rightarrow> MirrorData \<Rightarrow> vec3" where
  "calcFlatMirrorVector mm md = smul (- 2 * m_t md) (fnormal (mm ! mirrorTri md))"

definition calcSmoothMirrorVector :: "BMFace list \<Rightarrow> MirrorData \<Rightarrow> error + vec3" where
  "calcSmoothMirrorVector mm md =
     (let mTri = mm ! mirrorTri md;
          norm = vadd (vadd (smul (m_u md) (normal (v0 mTri))) (smul (m_v md) (normal (v1 mTri))))
                      (smul (m_w md) (normal (v2 mTri)))
      in if dot (fnormal mTri) norm = 0 then Inl ZeroDivisionError
         else Inr (smul ((- 2 * m_t md) / dot (fnormal mTri) norm) norm))"

text \<open>\<open>mirrorVert(vert, mirrorData, forceFlatMirror)\<close>, as the new value of \<open>vert.co\<close>.\<close>

definition mirrorVert :: "settings \<Rightarrow> BMFace list \<Rightarrow> vec3 \<Rightarrow> MirrorData \<Rightarrow> bool \<Rightarrow> error + vec3" where
  "mirrorVert cfg mm vertCo md forceFlatMirror =
     (case (if \<not> smoothed cfg \<or> forceFlatMirror then Inr (calcFlatMirrorVector mm md)
            else calcSmoothMirrorVector mm md) of
        Inl e \<Rightarrow> Inl e
      | Inr mVec \<Rightarrow> Inr (vadd vertCo mVec))"

subsection \<open>The state of one call of mirrorMesh\<close>

text \<open>
  A vertex of the source mesh: its position and \<open>link_verts\<close>, the vertices that
  \<open>for edge in vert.link_edges: edge.other_vert(vert)\<close> enumerates, in that order. A vertex
  is referred to by its \<open>index\<close>, its position in \<open>mesh.verts\<close>; an index outside the
  list denotes no vertex, and the loops pass it over.

  The state holds what the call mutates: the source vertices, the search data, the
  mirror faces (their tags), and \<open>mirrorLog\<close>, the indices of the vertices that
  \<open>mirrorVert\<close> has moved, in the order of the moves.
\<close>

record MeshVert =
  vco :: vec3
  link_verts :: "nat list"

record mstate =
  mesh_verts :: "MeshVert list"
  searchData :: "SearchData list"
  mirrorFaces :: "BMFace list"
  mirrorLog :: "nat list"

definition mirrorVert_at :: "settings \<Rightarrow> nat \<Rightarrow> MirrorData \<Rightarrow> bool \<Rightarrow> mstate \<Rightarrow> error + mstate" where
  "mirrorVert_at cfg i md forceFlatMirror st =
     (case mirrorVert cfg (mirrorFaces st) (vco (mesh_verts st ! i)) md forceFlatMirror of
        Inl e \<Rightarrow> Inl e
      | Inr c \<Rightarrow> Inr (st\<lparr>mesh_verts := (mesh_verts st)[i := (mesh_verts st ! i)\<lparr>vco := c\<rparr>],
                        mirrorLog := mirrorLog st @ [i]\<rparr>))"

subsection \<open>Propagation over the source mesh\<close>

text \<open>
  \<open>queueConnectedVerts(vert, searchData, queue)\<close>: \<open>vi\<close> is the index of \<open>vert\<close>, the
  third argument its \<open>link_verts\<close>.
\<close>

fun queueConnectedVerts ::
  "MeshVert list \<Rightarrow> nat \<Rightarrow> nat list \<Rightarrow> SearchData list \<times> nat list \<Rightarrow> SearchData list \<times> nat list" where
  "queueConnectedVerts vs vi [] s = s"
| "queueConnectedVerts vs vi (other # cs) (sd, queue) =
     (if other < length sd \<and> notMirrored (sd ! other)
      then let distance = vlength (vsub (vco (vs ! vi)) (vco (vs ! other)))
           in queueConnectedVerts vs vi cs
                (if distance < closeDistance (sd ! other)
                 then sd[other := (sd ! other)\<lparr>closeDistance := distance, closeVert := Some vi\<rparr>]
                 else sd,
                 queue @ [other])
      else queueConnectedVerts vs vi cs (sd, queue))"

definition queue_from :: "nat \<Rightarrow> mstate \<Rightarrow> nat list \<Rightarrow> mstate \<times> nat list" where
  "queue_from vi st queue =
     (case queueConnectedVerts (mesh_verts st) vi (link_verts (mesh_verts st ! vi)) (searchData st, queue) of
        (sd', queue') \<Rightarrow> (st\<lparr>searchData := sd'\<rparr>, queue'))"

text \<open>
  One turn of the \<open>while not vertQueue.empty()\<close> loop of \<open>mirrorConnected\<close>, for the
  dequeued vertex \<open>i\<close>; \<open>queue\<close> is the rest of the queue.
\<close>

definition mirrorConnected_step ::
  "settings \<Rightarrow> bool \<Rightarrow> nat \<Rightarrow> mstate \<Rightarrow> nat list \<Rightarrow> error + (mstate \<times> nat list)" where
  "mirrorConnected_step cfg intersectionTest i st queue =
     (if i < length (searchData st) \<and> notMirrored (searchData st ! i) then
        (case closeVert (searchData st ! i) of
           None \<Rightarrow> Inl AttributeError
         | Some cv \<Rightarrow>
             let lastMData = mirrorData (searchData st ! cv) in
             (case (if intersectionTest then
                      (case lastMData of
                         None \<Rightarrow> Inl AttributeError
                       | Some l \<Rightarrow>
                           (case findFirstTri cfg (vco (mesh_verts st ! i)) i (mirrorTri l)
                                   (searchData st) (mirrorFaces st) of
                              Inl e \<Rightarrow> Inl e
                            | Inr (sd', mm') \<Rightarrow>
                                Inr (st\<lparr>searchData := sd', mirrorFaces := mm'\<rparr>, mirrorData (sd' ! i))))
                    else Inr (st, None)) of
                Inl e \<Rightarrow> Inl e
              | Inr (st1, mData) \<Rightarrow>
                  (case valid_hit mData of
                     Some d \<Rightarrow>
                       (case mirrorVert_at cfg i d False st1 of
                          Inl e \<Rightarrow> Inl e
                        | Inr st2 \<Rightarrow> Inr (queue_from i st2 queue))
                   | None \<Rightarrow>
                       if \<not> onlyIntersecting cfg then
                         (case lastMData of
                            None \<Rightarrow> Inl AttributeError
                          | Some l \<Rightarrow>
                              let st2 = st1\<lparr>searchData :=
                                          findDistance (vco (mesh_verts st1 ! i)) i (mirrorTri l)
                                            (mirrorFaces st1) (searchData st1)\<rparr>
                              in (case mirrorData (searchData st2 ! i) of
                                    None \<Rightarrow> Inl AttributeError
                                  | Some mData' \<Rightarrow>
                                      (case mirrorVert_at cfg i mData' True st2 of
                                         Inl e \<Rightarrow> Inl e
                                       | Inr st3 \<Rightarrow> Inr (queue_from i st3 queue))))
                       else Inr (st1, queue))))
      else Inr (st, queue))"

definition unmirrored :: "SearchData list \<Rightarrow> nat" where
  "unmirrored sd = length (filter notMirrored sd)"

definition marks :: "mstate \<Rightarrow> MirrorData option list" where
  "marks st = map mirrorData (searchData st)"

lemma unmirrored_marks: "unmirrored (searchData st) = length (filter (\<lambda>m. m = None) (marks st))"
  by (simp add: unmirrored_def marks_def length_filter_map comp_def notMirrored_def[abs_def])

lemma findFirstTri_loop_sd:
  "findFirstTri_loop cfg p vi sd mm queue tagList = Inr (sd', mm', tagList') \<Longrightarrow>
   sd' = sd \<or> (\<exists>d. intersected d \<and> sd' = sd[vi := setMirror (sd ! vi) d])"
proof (induction cfg p vi sd mm queue tagList rule: findFirstTri_loop.induct)
  case (1 cfg vertCo vi sd mm tagList)
  then show ?case by simp
next
  case (2 cfg vertCo vi sd mm face queue tagList)
  show ?case
  proof (cases "triIntersection cfg vertCo mm face")
    case (Inl e)
    with "2.prems" show ?thesis by simp
  next
    case (Inr mDat)
    show ?thesis
    proof (cases "valid_hit mDat")
      case None
      obtain mm1 q1 tl1 where q: "queueConnectedFaces (link (mm ! face)) (mm, queue, tagList) = (mm1, q1, tl1)"
        by (cases "queueConnectedFaces (link (mm ! face)) (mm, queue, tagList)") auto
      from "2.prems" Inr None q have r: "findFirstTri_loop cfg vertCo vi sd mm1 q1 tl1 = Inr (sd', mm', tagList')"
        by simp
      show ?thesis by (rule "2.IH"[OF Inr None q[symmetric] refl r])
    next
      case (Some d)
      then have "intersected d" by (auto simp: valid_hit_def split: option.splits if_splits)
      with "2.prems" Inr Some show ?thesis by auto
    qed
  qed
qed

lemma findFirstTri_sd:
  "findFirstTri cfg p vi lastMFace sd mm = Inr (sd', mm') \<Longrightarrow>
   sd' = sd \<or> (\<exists>d. intersected d \<and> sd' = sd[vi := setMirror (sd ! vi) d])"
  by (auto simp: findFirstTri_def simp del: findFirstTri_loop.simps split: sum.splits prod.splits
        dest: findFirstTri_loop_sd)

lemma queueConnectedVerts_marks:
  "queueConnectedVerts vs vi cs (sd, queue) = (sd', queue') \<Longrightarrow>
   map mirrorData sd' = map mirrorData sd"
proof (induction cs arbitrary: sd queue)
  case Nil
  then show ?case by simp
next
  case (Cons c cs)
  show ?case
  proof (cases "c < length sd \<and> notMirrored (sd ! c)")
    case True
    let ?sd1 = "if vlength (vsub (vco (vs ! vi)) (vco (vs ! c))) < closeDistance (sd ! c)
                then sd[c := (sd ! c)\<lparr>closeDistance := vlength (vsub (vco (vs ! vi)) (vco (vs ! c))), closeVert := Some vi\<rparr>]
                else sd"
    from Cons.prems True have "queueConnectedVerts vs vi cs (?sd1, queue @ [c]) = (sd', queue')"
      by (simp add: Let_def)
    then have "map mirrorData sd' = map mirrorData ?sd1" by (rule Cons.IH)
    moreover have "map mirrorData ?sd1 = map mirrorData sd"
      using True by (simp add: map_update list_update_same_conv)
    ultimately show ?thesis by simp
  next
    case False
    with Cons.prems have "queueConnectedVerts vs vi cs (sd, queue) = (sd', queue')" by auto
    then show ?thesis by (rule Cons.IH)
  qed
qed

lemma queue_from_marks:
  "queue_from vi st queue = (st', queue') \<Longrightarrow>
   marks st' = marks st \<and> mirrorLog st' = mirrorLog st \<and> mesh_verts st' = mesh_verts st"
  by (auto simp: queue_from_def marks_def split: prod.splits dest: queueConnectedVerts_marks)

lemma mirrorVert_at_marks:
  "mirrorVert_at cfg i md force st = Inr st' \<Longrightarrow>
   marks st' = marks st \<and> mirrorLog st' = mirrorLog st @ [i] \<and>
   length (mesh_verts st') = length (mesh_verts st)"
  by (auto simp: mirrorVert_at_def marks_def split: sum.splits)

lemma valid_hit_Some: "valid_hit r = Some d \<Longrightarrow> r = Some d \<and> intersected d"
  by (auto simp: valid_hit_def split: option.splits if_splits)

lemma mirrorConnected_step_marks:
  assumes "mirrorConnected_step cfg it i st queue = Inr (st', queue')"
  shows "length (mesh_verts st') = length (mesh_verts st) \<and>
         ((marks st' = marks st \<and> mirrorLog st' = mirrorLog st \<and> queue' = queue) \<or>
          (i < length (marks st) \<and> marks st ! i = None \<and> (\<exists>d. marks st' = (marks st)[i := Some d]) \<and>
           mirrorLog st' = mirrorLog st @ [i]))"
  using assms
  apply (simp add: mirrorConnected_step_def Let_def split: if_splits option.splits sum.splits prod.splits)
  apply (auto dest!: findFirstTri_sd mirrorVert_at_marks queue_from_marks valid_hit_Some
         simp: marks_def findDistance_def setMirror_def notMirrored_def map_update valid_hit_def)
  done


text \<open>The \<open>while not vertQueue.empty()\<close> loop of \<open>mirrorConnected\<close>.\<close>

lemma filter_None_update:
  "i < length ms \<Longrightarrow> ms ! i = None \<Longrightarrow>
   Suc (length (filter (\<lambda>m. m = None) (ms[i := Some d]))) = length (filter (\<lambda>m. m = None) ms)"
  by (rule filter_length_update_drop) simp_all

lemma mirrorConnected_step_measure:
  assumes "mirrorConnected_step cfg it i st queue = Inr (st', queue')"
  shows "unmirrored (searchData st') < unmirrored (searchData st) \<or>
         (unmirrored (searchData st') = unmirrored (searchData st) \<and> queue' = queue)"
proof -
  from mirrorConnected_step_marks[OF assms]
  have "(marks st' = marks st \<and> mirrorLog st' = mirrorLog st \<and> queue' = queue) \<or>
        (i < length (marks st) \<and> marks st ! i = None \<and> (\<exists>d. marks st' = (marks st)[i := Some d]) \<and>
         mirrorLog st' = mirrorLog st @ [i])" by simp
  then show ?thesis
  proof (elim disjE conjE exE)
    assume "marks st' = marks st" and "queue' = queue"
    then show ?thesis by (simp add: unmirrored_marks)
  next
    fix d
    assume "i < length (marks st)" and "marks st ! i = None" and "marks st' = (marks st)[i := Some d]"
    with filter_None_update[of i "marks st" d] show ?thesis
      by (simp add: unmirrored_marks)
  qed
qed

function mirrorConnected_loop :: "settings \<Rightarrow> bool \<Rightarrow> mstate \<Rightarrow> nat list \<Rightarrow> error + mstate" where
  "mirrorConnected_loop cfg intersectionTest st [] = Inr st"
| "mirrorConnected_loop cfg intersectionTest st (i # queue) =
     (case mirrorConnected_step cfg intersectionTest i st queue of
        Inl e \<Rightarrow> Inl e
      | Inr (st', queue') \<Rightarrow> mirrorConnected_loop cfg intersectionTest st' queue')"
  by pat_completeness auto
termination
  apply (relation "measures [\<lambda>(cfg, it, st, queue). unmirrored (searchData st),
                             \<lambda>(cfg, it, st, queue). length queue]")
   apply simp
  apply clarify
  apply (drule mirrorConnected_step_measure)
  apply auto
  done

text \<open>\<open>mirrorConnected(initVertInd, mesh, mirrorMesh, searchData, intersectionTest)\<close>\<close>

definition mirrorConnected :: "settings \<Rightarrow> nat \<Rightarrow> bool \<Rightarrow> mstate \<Rightarrow> error + mstate" where
  "mirrorConnected cfg initVertInd intersectionTest st =
     (case queue_from initVertInd st [] of
        (st', queue) \<Rightarrow> mirrorConnected_loop cfg intersectionTest st' queue)"

subsection \<open>mirrorMesh and the report of execute\<close>

text \<open>A \<open>for\<close> loop whose body may raise: the first error ends it.\<close>

fun for_each :: "('a \<Rightarrow> 's \<Rightarrow> error + 's) \<Rightarrow> 'a list \<Rightarrow> 's \<Rightarrow> error + 's" where
  "for_each body [] s = Inr s"
| "for_each body (x # xs) s = (case body x s of Inl e \<Rightarrow> Inl e | Inr s' \<Rightarrow> for_each body xs s')"

text \<open>The body of the first loop of \<open>mirrorMesh\<close>, for the index \<open>i\<close>.\<close>

definition seed_body :: "settings \<Rightarrow> nat \<Rightarrow> mstate \<Rightarrow> error + mstate" where
  "seed_body cfg i st =
     (if notMirrored (searchData st ! i) then
        (case findClosestTri cfg (vco (mesh_verts st ! i)) i (mirrorFaces st) (searchData st) of
           Inl e \<Rightarrow> Inl e
         | Inr sd' \<Rightarrow>
             (case valid_hit (mirrorData (sd' ! i)) of
                Some mData \<Rightarrow>
                  (case mirrorVert_at cfg i mData False (st\<lparr>searchData := sd'\<rparr>) of
                     Inl e \<Rightarrow> Inl e
                   | Inr st2 \<Rightarrow>
                       if \<not> closestOnly cfg then mirrorConnected cfg i True st2 else Inr st2)
              | None \<Rightarrow> Inr (st\<lparr>searchData := sd'\<rparr>)))
      else Inr st)"

text \<open>\<open>mirrorNonIntersecting(nonMirrorCount, mesh, mirrorMesh, searchData)\<close>\<close>

definition mirrorNonIntersecting :: "settings \<Rightarrow> nat \<Rightarrow> mstate \<Rightarrow> error + mstate" where
  "mirrorNonIntersecting cfg nonMirrorCount st =
     (if nonMirrorCount > 0
      then for_each (\<lambda>i s. if mirrored (searchData s ! i) then mirrorConnected cfg i False s else Inr s)
             [0..<length (searchData st)] st
      else Inr st)"

text \<open>
  The first part of \<open>mirrorMesh(mesh, mirrorMesh)\<close>: the search data array and the
  first loop, which seeds and propagates.
\<close>

definition seed_and_propagate :: "settings \<Rightarrow> MeshVert list \<Rightarrow> BMFace list \<Rightarrow> error + mstate" where
  "seed_and_propagate cfg mesh mm =
     for_each (seed_body cfg) [0..<length mesh]
       \<lparr>mesh_verts = mesh, searchData = replicate (length mesh) SearchData_init,
        mirrorFaces = mm, mirrorLog = []\<rparr>"

text \<open>
  \<open>mirrorMesh(mesh, mirrorMesh)\<close>: the returned count, and the state the call leaves.
\<close>

definition mirrorMesh :: "settings \<Rightarrow> MeshVert list \<Rightarrow> BMFace list \<Rightarrow> error + (nat \<times> mstate)" where
  "mirrorMesh cfg mesh mm =
     (case seed_and_propagate cfg mesh mm of
        Inl e \<Rightarrow> Inl e
      | Inr st1 \<Rightarrow>
          let nonMirrorCount = length (filter notMirrored (searchData st1))
          in if closestOnly cfg \<and> \<not> onlyIntersecting cfg
             then (case mirrorNonIntersecting cfg nonMirrorCount st1 of
                     Inl e \<Rightarrow> Inl e
                   | Inr st2 \<Rightarrow> Inr (nonMirrorCount, st2))
             else Inr (nonMirrorCount, st1))"

text \<open>
  What \<open>execute\<close> does for one selected mesh, after \<open>mirrorMesh\<close>: the object it creates
  (the vertex positions of the mirrored mesh; \<open>flipNormals\<close> has been applied to it) and
  the warnings it reports.
\<close>

datatype report = Warning_not_all_intersect nat | Warning_no_mirror_created

record mirror_object =
  ob_verts :: "vec3 list"
  normals_flipped :: bool

definition execute_mesh ::
  "settings \<Rightarrow> MeshVert list \<Rightarrow> BMFace list \<Rightarrow> error + (mirror_object option \<times> report list)" where
  "execute_mesh cfg mesh mm =
     (case mirrorMesh cfg mesh mm of
        Inl e \<Rightarrow> Inl e
      | Inr (nonMCount, st) \<Rightarrow>
          if nonMCount < length (mesh_verts st)
          then Inr (Some \<lparr>ob_verts = map vco (mesh_verts st), normals_flipped = True\<rparr>,
                    if nonMCount \<noteq> 0 then [Warning_not_all_intersect nonMCount] else [])
          else Inr (None, [Warning_no_mirror_created]))"

section \<open>Concrete inputs\<close>

text \<open>
  Small meshes with coordinates that binary floating point represents exactly, so that
  every value computed from them is the value the script computes.
\<close>

definition ex_cfg :: settings where
  "ex_cfg = \<lparr>biasNeg = - (1 / 10000), smoothed = True, cull = False, closestOnly = False,
             onlyIntersecting = True\<rparr>"

text \<open>A triangle in the plane \<open>z = 0\<close>, all its normals \<open>(0, 0, 1)\<close>; it is its own neighbour
  across each of its three edges.\<close>

definition ex_flat_tri :: BMFace where
  "ex_flat_tri = \<lparr>fnormal = (0, 0, 1),
                  v0 = \<lparr>co = (0, 0, 0), normal = (0, 0, 1)\<rparr>,
                  v1 = \<lparr>co = (1, 0, 0), normal = (0, 0, 1)\<rparr>,
                  v2 = \<lparr>co = (0, 1, 0), normal = (0, 0, 1)\<rparr>,
                  tag = False, link = [0, 0, 0]\<rparr>"

text \<open>A triangle of area zero (its corners lie on a line), with face normal \<open>n\<close>.\<close>

definition ex_zero_area_tri :: "vec3 \<Rightarrow> BMFace" where
  "ex_zero_area_tri n = \<lparr>fnormal = n,
                  v0 = \<lparr>co = (0, 0, 0), normal = (0, 0, 1)\<rparr>,
                  v1 = \<lparr>co = (1, 0, 0), normal = (0, 0, 1)\<rparr>,
                  v2 = \<lparr>co = (2, 0, 0), normal = (0, 0, 1)\<rparr>,
                  tag = False, link = [0, 0, 0]\<rparr>"

section \<open>Properties of the mirror engine\<close>

subsection \<open>Outcomes of the triangle intersection test\<close>

text \<open>
  Names for two quantities of \<open>triIntersection\<close>: the signed distance \<open>t\<close>, and a corner
  moved by \<open>t\<close> along its normal.
\<close>

definition plane_t :: "BMFace \<Rightarrow> vec3 \<Rightarrow> real" where
  "plane_t mTri p = dot (fnormal mTri) (vsub p (co (v0 mTri)))"

definition offset_corner :: "BMFace \<Rightarrow> vec3 \<Rightarrow> BMVert \<Rightarrow> vec3" where
  "offset_corner mTri p v =
     vadd (smul (plane_t mTri p / dot (fnormal mTri) (normal v)) (normal v)) (co v)"

lemma dot_zero_left: "dot (0, 0, 0) a = 0"
  by (cases a) simp

text \<open>Backface culling on, the other settings as in \<open>ex_cfg\<close>.\<close>

definition ex_cull_cfg :: settings where
  "ex_cull_cfg = \<lparr>biasNeg = - (1 / 10000), smoothed = True, cull = True, closestOnly = False,
                  onlyIntersecting = True\<rparr>"

text \<open>
  Claim C1, as amended. \<open>triIntersection\<close> has no test for a degenerate triangle or a
  parallel normal. It answers \<open>None\<close> only when backface culling is on, never because
  of the triangle. For a triangle whose face normal is \<open>(0, 0, 0)\<close> (the normal of a face
  of area zero) the first quotient divides by zero and the call raises
  \<open>ZeroDivisionError\<close>, whatever the vertex and the settings; it raises nothing else.
  A record it returns names the triangle, and its \<open>intersected\<close> is the test
  \<open>u, v, w > biasNeg\<close> on the weights computed.
\<close>

theorem triIntersection_outcomes:
  "(triIntersection cfg p mm k = Inr None \<longrightarrow> cull cfg) \<and>
   (fnormal (mm ! k) = (0, 0, 0) \<longrightarrow> triIntersection cfg p mm k = Inl ZeroDivisionError) \<and>
   triIntersection cfg p mm k \<noteq> Inl AttributeError \<and>
   (\<forall>md. triIntersection cfg p mm k = Inr (Some md) \<longrightarrow>
      mirrorTri md = k \<and>
      intersected md = (biasNeg cfg < m_u md \<and> biasNeg cfg < m_v md \<and> biasNeg cfg < m_w md))"
proof (intro conjI allI impI)
  assume "triIntersection cfg p mm k = Inr None"
  then show "cull cfg"
    by (simp add: triIntersection_def Let_def split: if_splits)
next
  assume "fnormal (mm ! k) = (0, 0, 0)"
  then show "triIntersection cfg p mm k = Inl ZeroDivisionError"
    by (simp add: triIntersection_def Let_def dot_zero_left)
next
  show "triIntersection cfg p mm k \<noteq> Inl AttributeError"
    by (simp add: triIntersection_def Let_def)
next
  fix md assume "triIntersection cfg p mm k = Inr (Some md)"
  then show "mirrorTri md = k"
    by (auto simp: triIntersection_def Let_def split: if_splits)
next
  fix md assume "triIntersection cfg p mm k = Inr (Some md)"
  then show "intersected md = (biasNeg cfg < m_u md \<and> biasNeg cfg < m_v md \<and> biasNeg cfg < m_w md)"
    by (auto simp: triIntersection_def Let_def split: if_splits)
qed

theorem triIntersection_outcomes_witness:
  "triIntersection ex_cull_cfg (1/4, 1/4, - 1) [ex_flat_tri] 0 = Inr None \<and> cull ex_cull_cfg \<and>
   fnormal ([ex_zero_area_tri (0, 0, 0)] ! 0) = (0, 0, 0) \<and>
   triIntersection ex_cull_cfg (0, 0, 1) [ex_zero_area_tri (0, 0, 0)] 0 = Inl ZeroDivisionError \<and>
   triIntersection ex_cfg (1/4, 1/4, 1) [ex_flat_tri] 0 =
     Inr (Some \<lparr>m_u = 1/2, m_v = 1/4, m_w = 1/4, m_t = 1, mirrorTri = 0, intersected = True\<rparr>) \<and>
   biasNeg ex_cfg < 1/4"
proof -
  have h1: "triIntersection ex_cull_cfg (1/4, 1/4, - 1) [ex_flat_tri] 0 = Inr None"
    by (simp add: triIntersection_def ex_cull_cfg_def ex_flat_tri_def Let_def)
  have h2: "fnormal ([ex_zero_area_tri (0, 0, 0)] ! 0) = (0, 0, 0)"
    by (simp add: ex_zero_area_tri_def)
  have h3: "triIntersection ex_cfg (1/4, 1/4, 1) [ex_flat_tri] 0 =
     Inr (Some \<lparr>m_u = 1/2, m_v = 1/4, m_w = 1/4, m_t = 1, mirrorTri = 0, intersected = True\<rparr>)"
    by (simp add: triIntersection_def ex_cfg_def ex_flat_tri_def Let_def)
  from triIntersection_outcomes[of ex_cull_cfg "(1/4, 1/4, - 1)" "[ex_flat_tri]" 0] h1
  have c1: "cull ex_cull_cfg" by blast
  from triIntersection_outcomes[of ex_cull_cfg "(0, 0, 1)" "[ex_zero_area_tri (0, 0, 0)]" 0] h2
  have c2: "triIntersection ex_cull_cfg (0, 0, 1) [ex_zero_area_tri (0, 0, 0)] 0 = Inl ZeroDivisionError"
    by blast
  from triIntersection_outcomes[of ex_cfg "(1/4, 1/4, 1)" "[ex_flat_tri]" 0] h3
  have c3: "biasNeg ex_cfg < 1/4" by auto
  from h1 c1 h2 c2 h3 c3 show ?thesis by blast
qed

text \<open>
  Claim C1 as stated fails: for the vertex \<open>(0, 0, 1)\<close> and a triangle of area zero, with
  the face normal \<open>(0, 0, 0)\<close> as with the face normal \<open>(0, 0, 1)\<close>, the test does not
  answer "no intersection"; it divides by zero.
\<close>

theorem triIntersection_degenerate_counterexample:
  "triIntersection ex_cfg (0, 0, 1) [ex_zero_area_tri (0, 0, 0)] 0 = Inl ZeroDivisionError \<and>
   triIntersection ex_cfg (0, 0, 1) [ex_zero_area_tri (0, 0, 1)] 0 = Inl ZeroDivisionError"
  by (simp add: triIntersection_def ex_cfg_def ex_zero_area_tri_def Let_def)

subsection \<open>The seed search keeps the first smallest distance\<close>

text \<open>
  The valid intersections of a vertex, in the order in which \<open>findClosestTri\<close> meets
  them: the records of the faces whose test returns a record with \<open>_intersected\<close> set.
\<close>

definition valid_intersections :: "settings \<Rightarrow> vec3 \<Rightarrow> BMFace list \<Rightarrow> nat list \<Rightarrow> MirrorData list" where
  "valid_intersections cfg p mm ks =
     List.map_filter (\<lambda>k. case triIntersection cfg p mm k of Inl e \<Rightarrow> None | Inr r \<Rightarrow> valid_hit r) ks"

text \<open>What a run of \<open>setClosestMirror\<close> over a list of records leaves, from the record \<open>cur\<close>.\<close>

fun keep_closest :: "MirrorData option \<Rightarrow> MirrorData list \<Rightarrow> MirrorData option" where
  "keep_closest cur [] = cur"
| "keep_closest cur (d # ds) =
     keep_closest (case cur of None \<Rightarrow> Some d
                   | Some old \<Rightarrow> if m_t d < m_t old then Some d else Some old) ds"

lemma findClosestTri_loop_keep:
  "vi < length sd \<Longrightarrow> findClosestTri_loop cfg p vi mm ks sd = Inr sd' \<Longrightarrow>
   length sd' = length sd \<and>
   mirrorData (sd' ! vi) = keep_closest (mirrorData (sd ! vi)) (valid_intersections cfg p mm ks) \<and>
   (\<forall>j. j \<noteq> vi \<longrightarrow> sd' ! j = sd ! j)"
proof (induction ks arbitrary: sd)
  case Nil
  then show ?case by (simp add: valid_intersections_def)
next
  case (Cons k ks)
  show ?case
  proof (cases "triIntersection cfg p mm k")
    case (Inl e)
    with Cons.prems show ?thesis by simp
  next
    case (Inr r)
    show ?thesis
    proof (cases "valid_hit r")
      case None
      with Cons.prems Inr have "findClosestTri_loop cfg p vi mm ks sd = Inr sd'" by simp
      from Cons.IH[OF Cons.prems(1) this] Inr None show ?thesis
        by (simp add: valid_intersections_def map_filter_simps)
    next
      case (Some d)
      let ?sd1 = "sd[vi := setClosestMirror (sd ! vi) d]"
      from Cons.prems Inr Some have run: "findClosestTri_loop cfg p vi mm ks ?sd1 = Inr sd'" by simp
      have len: "vi < length ?sd1" using Cons.prems(1) by simp
      have "mirrorData (?sd1 ! vi) =
            (case mirrorData (sd ! vi) of None \<Rightarrow> Some d
             | Some old \<Rightarrow> if m_t d < m_t old then Some d else Some old)"
        using Cons.prems(1) by (simp add: setClosestMirror_def split: option.splits)
      with Cons.IH[OF len run] Inr Some show ?thesis
        by (simp add: valid_intersections_def map_filter_simps)
    qed
  qed
qed

lemma keep_closest_Some:
  "\<exists>r. keep_closest (Some c) ds = Some r \<and>
     ((r = c \<and> (\<forall>x\<in>set ds. m_t c \<le> m_t x)) \<or>
      (\<exists>pre post. ds = pre @ r # post \<and> m_t r < m_t c \<and>
         (\<forall>x\<in>set pre. m_t r < m_t x) \<and> (\<forall>x\<in>set post. m_t r \<le> m_t x)))"
proof (induction ds arbitrary: c)
  case Nil
  then show ?case by simp
next
  case (Cons d ds)
  show ?case
  proof (cases "m_t d < m_t c")
    case True
    from Cons.IH[of d] obtain r where r: "keep_closest (Some d) ds = Some r"
      and alt: "(r = d \<and> (\<forall>x\<in>set ds. m_t d \<le> m_t x)) \<or>
        (\<exists>pre post. ds = pre @ r # post \<and> m_t r < m_t d \<and>
           (\<forall>x\<in>set pre. m_t r < m_t x) \<and> (\<forall>x\<in>set post. m_t r \<le> m_t x))"
      by blast
    from alt have "\<exists>pre post. d # ds = pre @ r # post \<and> m_t r < m_t c \<and>
         (\<forall>x\<in>set pre. m_t r < m_t x) \<and> (\<forall>x\<in>set post. m_t r \<le> m_t x)"
    proof
      assume "r = d \<and> (\<forall>x\<in>set ds. m_t d \<le> m_t x)"
      with True have "d # ds = [] @ r # ds \<and> m_t r < m_t c \<and>
         (\<forall>x\<in>set []. m_t r < m_t x) \<and> (\<forall>x\<in>set ds. m_t r \<le> m_t x)" by simp
      then show ?thesis by blast
    next
      assume "\<exists>pre post. ds = pre @ r # post \<and> m_t r < m_t d \<and>
           (\<forall>x\<in>set pre. m_t r < m_t x) \<and> (\<forall>x\<in>set post. m_t r \<le> m_t x)"
      then obtain pre post where "ds = pre @ r # post" "m_t r < m_t d"
        "\<forall>x\<in>set pre. m_t r < m_t x" "\<forall>x\<in>set post. m_t r \<le> m_t x" by blast
      with True have "d # ds = (d # pre) @ r # post \<and> m_t r < m_t c \<and>
         (\<forall>x\<in>set (d # pre). m_t r < m_t x) \<and> (\<forall>x\<in>set post. m_t r \<le> m_t x)" by simp
      then show ?thesis by blast
    qed
    with r True show ?thesis by simp
  next
    case False
    from Cons.IH[of c] obtain r where r: "keep_closest (Some c) ds = Some r"
      and alt: "(r = c \<and> (\<forall>x\<in>set ds. m_t c \<le> m_t x)) \<or>
        (\<exists>pre post. ds = pre @ r # post \<and> m_t r < m_t c \<and>
           (\<forall>x\<in>set pre. m_t r < m_t x) \<and> (\<forall>x\<in>set post. m_t r \<le> m_t x))"
      by blast
    from alt have "(r = c \<and> (\<forall>x\<in>set (d # ds). m_t c \<le> m_t x)) \<or>
      (\<exists>pre post. d # ds = pre @ r # post \<and> m_t r < m_t c \<and>
         (\<forall>x\<in>set pre. m_t r < m_t x) \<and> (\<forall>x\<in>set post. m_t r \<le> m_t x))"
    proof
      assume "r = c \<and> (\<forall>x\<in>set ds. m_t c \<le> m_t x)"
      with False show ?thesis by simp
    next
      assume "\<exists>pre post. ds = pre @ r # post \<and> m_t r < m_t c \<and>
           (\<forall>x\<in>set pre. m_t r < m_t x) \<and> (\<forall>x\<in>set post. m_t r \<le> m_t x)"
      then obtain pre post where "ds = pre @ r # post" "m_t r < m_t c"
        "\<forall>x\<in>set pre. m_t r < m_t x" "\<forall>x\<in>set post. m_t r \<le> m_t x" by blast
      with False have "d # ds = (d # pre) @ r # post \<and> m_t r < m_t c \<and>
         (\<forall>x\<in>set (d # pre). m_t r < m_t x) \<and> (\<forall>x\<in>set post. m_t r \<le> m_t x)" by simp
      then show ?thesis by blast
    qed
    with r False show ?thesis by simp
  qed
qed

lemma keep_closest_None:
  "(ds = [] \<and> keep_closest None ds = None) \<or>
   (\<exists>pre r post. ds = pre @ r # post \<and> keep_closest None ds = Some r \<and>
      (\<forall>x\<in>set pre. m_t r < m_t x) \<and> (\<forall>x\<in>set post. m_t r \<le> m_t x))"
proof (cases ds)
  case Nil
  then show ?thesis by simp
next
  case (Cons d ds')
  from keep_closest_Some[of d ds'] obtain r where r: "keep_closest (Some d) ds' = Some r"
    and alt: "(r = d \<and> (\<forall>x\<in>set ds'. m_t d \<le> m_t x)) \<or>
      (\<exists>pre post. ds' = pre @ r # post \<and> m_t r < m_t d \<and>
         (\<forall>x\<in>set pre. m_t r < m_t x) \<and> (\<forall>x\<in>set post. m_t r \<le> m_t x))"
    by blast
  from alt have "\<exists>pre post. d # ds' = pre @ r # post \<and>
      (\<forall>x\<in>set pre. m_t r < m_t x) \<and> (\<forall>x\<in>set post. m_t r \<le> m_t x)"
  proof
    assume "r = d \<and> (\<forall>x\<in>set ds'. m_t d \<le> m_t x)"
    then have "d # ds' = [] @ r # ds' \<and> (\<forall>x\<in>set []. m_t r < m_t x) \<and> (\<forall>x\<in>set ds'. m_t r \<le> m_t x)"
      by simp
    then show ?thesis by blast
  next
    assume "\<exists>pre post. ds' = pre @ r # post \<and> m_t r < m_t d \<and>
         (\<forall>x\<in>set pre. m_t r < m_t x) \<and> (\<forall>x\<in>set post. m_t r \<le> m_t x)"
    then obtain pre post where "ds' = pre @ r # post" "m_t r < m_t d"
      "\<forall>x\<in>set pre. m_t r < m_t x" "\<forall>x\<in>set post. m_t r \<le> m_t x" by blast
    then have "d # ds' = (d # pre) @ r # post \<and>
       (\<forall>x\<in>set (d # pre). m_t r < m_t x) \<and> (\<forall>x\<in>set post. m_t r \<le> m_t x)" by simp
    then show ?thesis by blast
  qed
  with r Cons show ?thesis by auto
qed

text \<open>Three faces for one vertex: a plane at distance 2, then the same plane at distance 1 twice.\<close>

definition ex_back_tri :: BMFace where
  "ex_back_tri = \<lparr>fnormal = (0, 0, 1),
                  v0 = \<lparr>co = (0, 0, - 1), normal = (0, 0, 1)\<rparr>,
                  v1 = \<lparr>co = (1, 0, - 1), normal = (0, 0, 1)\<rparr>,
                  v2 = \<lparr>co = (0, 1, - 1), normal = (0, 0, 1)\<rparr>,
                  tag = False, link = [0, 0, 0]\<rparr>"

definition ex_three_faces :: "BMFace list" where
  "ex_three_faces = [ex_back_tri, ex_flat_tri, ex_flat_tri]"

definition ex_seed_found :: "SearchData list" where
  "ex_seed_found =
     [\<lparr>closeDistance = largeFloat, closeVert = None,
       mirrorData = Some \<lparr>m_u = 1/2, m_v = 1/4, m_w = 1/4, m_t = 1, mirrorTri = 1,
                          intersected = True\<rparr>\<rparr>]"

lemma upt3: "[0..<3] = [0, 1, 2]"
  by (simp add: upt_rec)

text \<open>
  Claim C4. The seed search of a vertex that has no record yet, when it returns: if no face
  gives a valid intersection the vertex keeps no record; otherwise the record kept is a
  valid intersection \<open>r\<close> such that every valid intersection found before it has a
  strictly larger \<open>t\<close> and every one found after it has a \<open>t\<close> at least as large. So it
  has the smallest \<open>t\<close>, and among equal ones it is the first in the order of the faces.
\<close>

theorem findClosestTri_keeps_first_smallest:
  assumes "vi < length sd" and "mirrorData (sd ! vi) = None"
    and "findClosestTri cfg p vi mm sd = Inr sd'"
  shows "(valid_intersections cfg p mm [0..<length mm] = [] \<and> mirrorData (sd' ! vi) = None) \<or>
         (\<exists>pre r post. valid_intersections cfg p mm [0..<length mm] = pre @ r # post \<and>
            mirrorData (sd' ! vi) = Some r \<and>
            (\<forall>x\<in>set pre. m_t r < m_t x) \<and> (\<forall>x\<in>set post. m_t r \<le> m_t x))"
proof -
  from assms(3) have "findClosestTri_loop cfg p vi mm [0..<length mm] sd = Inr sd'"
    by (simp add: findClosestTri_def)
  from findClosestTri_loop_keep[OF assms(1) this] assms(2)
  have "mirrorData (sd' ! vi) = keep_closest None (valid_intersections cfg p mm [0..<length mm])"
    by simp
  with keep_closest_None[of "valid_intersections cfg p mm [0..<length mm]"] show ?thesis
    by auto
qed


theorem findClosestTri_keeps_first_smallest_witness:
  "0 < length [SearchData_init] \<and> mirrorData ([SearchData_init] ! 0) = None \<and>
   findClosestTri ex_cfg (1/4, 1/4, 1) 0 ex_three_faces [SearchData_init] = Inr ex_seed_found \<and>
   map m_t (valid_intersections ex_cfg (1/4, 1/4, 1) ex_three_faces [0..<length ex_three_faces]) = [2, 1, 1] \<and>
   (\<exists>pre r post.
      valid_intersections ex_cfg (1/4, 1/4, 1) ex_three_faces [0..<length ex_three_faces] = pre @ r # post \<and>
      mirrorData (ex_seed_found ! 0) = Some r \<and> mirrorTri r = 1 \<and>
      (\<forall>x\<in>set pre. m_t r < m_t x) \<and> (\<forall>x\<in>set post. m_t r \<le> m_t x))"
proof -
  have h1: "0 < length [SearchData_init]" by simp
  have h2: "mirrorData ([SearchData_init] ! 0) = None" by (simp add: SearchData_init_def)
  have h3: "findClosestTri ex_cfg (1/4, 1/4, 1) 0 ex_three_faces [SearchData_init] = Inr ex_seed_found"
    by (simp add: findClosestTri_def ex_three_faces_def upt3 triIntersection_def ex_cfg_def
        ex_back_tri_def ex_flat_tri_def valid_hit_def setClosestMirror_def SearchData_init_def
        ex_seed_found_def Let_def)
  have h4: "map m_t (valid_intersections ex_cfg (1/4, 1/4, 1) ex_three_faces [0..<length ex_three_faces]) = [2, 1, 1]"
    by (simp add: valid_intersections_def ex_three_faces_def upt3 triIntersection_def ex_cfg_def
        ex_back_tri_def ex_flat_tri_def valid_hit_def map_filter_simps Let_def)
  have h5: "mirrorData (ex_seed_found ! 0) \<noteq> None" by (simp add: ex_seed_found_def)
  from findClosestTri_keeps_first_smallest[OF h1 h2 h3] h5
  obtain pre r post where
    "valid_intersections ex_cfg (1/4, 1/4, 1) ex_three_faces [0..<length ex_three_faces] = pre @ r # post"
    "mirrorData (ex_seed_found ! 0) = Some r"
    "\<forall>x\<in>set pre. m_t r < m_t x" "\<forall>x\<in>set post. m_t r \<le> m_t x"
    by blast
  moreover from this(2) have "mirrorTri r = 1" by (auto simp: ex_seed_found_def)
  ultimately have "\<exists>pre r post.
      valid_intersections ex_cfg (1/4, 1/4, 1) ex_three_faces [0..<length ex_three_faces] = pre @ r # post \<and>
      mirrorData (ex_seed_found ! 0) = Some r \<and> mirrorTri r = 1 \<and>
      (\<forall>x\<in>set pre. m_t r < m_t x) \<and> (\<forall>x\<in>set post. m_t r \<le> m_t x)"
    by blast
  with h1 h2 h3 h4 show ?thesis by blast
qed

subsection \<open>Mirroring twice over a flat face\<close>

lemma triIntersection_Some:
  "triIntersection cfg p mm k = Inr (Some md) \<Longrightarrow>
   m_t md = plane_t (mm ! k) p \<and> mirrorTri md = k"
  by (auto simp: triIntersection_def plane_t_def Let_def split: if_splits)

lemma plane_t_shift:
  "plane_t f (vadd p (smul c (fnormal f))) = plane_t f p + c * dot (fnormal f) (fnormal f)"
  by (cases p; cases "fnormal f"; cases "co (v0 f)") (simp add: plane_t_def algebra_simps)

lemma plane_t_reflect:
  "dot (fnormal f) (fnormal f) = 1 \<Longrightarrow>
   plane_t f (vadd p (smul (- 2 * plane_t f p) (fnormal f))) = - plane_t f p"
  by (simp add: plane_t_shift)

lemma reflect_twice:
  "vadd (vadd p (smul (- 2 * t) n)) (smul (- 2 * (- t)) n) = p"
  by (cases p; cases n) simp

definition ex_flat_cfg :: settings where
  "ex_flat_cfg = \<lparr>biasNeg = - (1 / 10000), smoothed = False, cull = False, closestOnly = False,
                  onlyIntersecting = True\<rparr>"

text \<open>
  Claim C5. Flat mode, no backface culling, a face normal of length one (so that \<open>t\<close> is the
  signed distance to the plane of the face). When a vertex \<open>p\<close> is tested against a face
  and moved by \<open>-2t\<close> times the face normal, and the moved vertex is tested against the
  same face and moved again, the second distance is \<open>-t\<close> and the vertex is back at \<open>p\<close>.
  The arithmetic is exact here, so the positions are equal.
\<close>

theorem flat_mirror_involution:
  assumes "\<not> cull cfg" and "\<not> smoothed cfg"
    and "dot (fnormal (mm ! k)) (fnormal (mm ! k)) = 1"
    and "triIntersection cfg p mm k = Inr (Some md)"
    and "mirrorVert cfg mm p md False = Inr p1"
    and "triIntersection cfg p1 mm k = Inr (Some md1)"
    and "mirrorVert cfg mm p1 md1 False = Inr p2"
  shows "m_t md1 = - m_t md \<and> p2 = p"
proof -
  let ?n = "fnormal (mm ! k)"
  from assms(4) have md: "m_t md = plane_t (mm ! k) p" "mirrorTri md = k"
    by (simp_all add: triIntersection_Some)
  from assms(6) have md1: "m_t md1 = plane_t (mm ! k) p1" "mirrorTri md1 = k"
    by (simp_all add: triIntersection_Some)
  from assms(2,5) md have p1: "p1 = vadd p (smul (- 2 * plane_t (mm ! k) p) ?n)"
    by (auto simp: mirrorVert_def calcFlatMirrorVector_def)
  from md1 p1 plane_t_reflect[OF assms(3), of p] md have t1: "m_t md1 = - m_t md"
    by simp
  from assms(2,7) md1 have "p2 = vadd p1 (smul (- 2 * m_t md1) ?n)"
    by (auto simp: mirrorVert_def calcFlatMirrorVector_def)
  with p1 t1 md have "p2 = vadd (vadd p (smul (- 2 * m_t md) ?n)) (smul (- 2 * (- m_t md)) ?n)"
    by simp
  with reflect_twice t1 show ?thesis by simp
qed


theorem flat_mirror_involution_witness:
  "\<not> cull ex_flat_cfg \<and> \<not> smoothed ex_flat_cfg \<and>
   dot (fnormal ([ex_flat_tri] ! 0)) (fnormal ([ex_flat_tri] ! 0)) = 1 \<and>
   triIntersection ex_flat_cfg (1/4, 1/4, 1) [ex_flat_tri] 0 =
     Inr (Some \<lparr>m_u = 1/2, m_v = 1/4, m_w = 1/4, m_t = 1, mirrorTri = 0, intersected = True\<rparr>) \<and>
   mirrorVert ex_flat_cfg [ex_flat_tri] (1/4, 1/4, 1)
     \<lparr>m_u = 1/2, m_v = 1/4, m_w = 1/4, m_t = 1, mirrorTri = 0, intersected = True\<rparr> False =
     Inr (1/4, 1/4, - 1) \<and>
   triIntersection ex_flat_cfg (1/4, 1/4, - 1) [ex_flat_tri] 0 =
     Inr (Some \<lparr>m_u = 1/2, m_v = 1/4, m_w = 1/4, m_t = - 1, mirrorTri = 0, intersected = True\<rparr>) \<and>
   mirrorVert ex_flat_cfg [ex_flat_tri] (1/4, 1/4, - 1)
     \<lparr>m_u = 1/2, m_v = 1/4, m_w = 1/4, m_t = - 1, mirrorTri = 0, intersected = True\<rparr> False =
     Inr (1/4, 1/4, 1)"
proof -
  have h1: "\<not> cull ex_flat_cfg" and h2: "\<not> smoothed ex_flat_cfg"
    by (simp_all add: ex_flat_cfg_def)
  have h3: "dot (fnormal ([ex_flat_tri] ! 0)) (fnormal ([ex_flat_tri] ! 0)) = 1"
    by (simp add: ex_flat_tri_def)
  have h4: "triIntersection ex_flat_cfg (1/4, 1/4, 1) [ex_flat_tri] 0 =
     Inr (Some \<lparr>m_u = 1/2, m_v = 1/4, m_w = 1/4, m_t = 1, mirrorTri = 0, intersected = True\<rparr>)"
    by (simp add: triIntersection_def ex_flat_cfg_def ex_flat_tri_def Let_def)
  have h5: "mirrorVert ex_flat_cfg [ex_flat_tri] (1/4, 1/4, 1)
     \<lparr>m_u = 1/2, m_v = 1/4, m_w = 1/4, m_t = 1, mirrorTri = 0, intersected = True\<rparr> False =
     Inr (1/4, 1/4, - 1)"
    by (simp add: mirrorVert_def calcFlatMirrorVector_def ex_flat_cfg_def ex_flat_tri_def)
  have h6: "triIntersection ex_flat_cfg (1/4, 1/4, - 1) [ex_flat_tri] 0 =
     Inr (Some \<lparr>m_u = 1/2, m_v = 1/4, m_w = 1/4, m_t = - 1, mirrorTri = 0, intersected = True\<rparr>)"
    by (simp add: triIntersection_def ex_flat_cfg_def ex_flat_tri_def Let_def)
  have h7: "mirrorVert ex_flat_cfg [ex_flat_tri] (1/4, 1/4, - 1)
     \<lparr>m_u = 1/2, m_v = 1/4, m_w = 1/4, m_t = - 1, mirrorTri = 0, intersected = True\<rparr> False =
     Inr (1/4, 1/4, 1)"
    by (simp add: mirrorVert_def calcFlatMirrorVector_def ex_flat_cfg_def ex_flat_tri_def)
  from flat_mirror_involution[OF h1 h2 h3 h4 h5 h6 h7] h1 h2 h3 h4 h5 h6 h7
  show ?thesis by blast
qed

text \<open>On a flat mirror (every corner normal is the unit face normal) the second pass meets
  the same triangle with the same weights.\<close>

definition bary_result :: "settings \<Rightarrow> nat \<Rightarrow> real \<Rightarrow> vec3 \<Rightarrow> vec3 \<Rightarrow> vec3 \<Rightarrow> error + MirrorData option" where
  "bary_result cfg k t e0 e1 e2 =
     (if dot e0 e0 * dot e1 e1 - dot e0 e1 * dot e0 e1 = 0 then Inl ZeroDivisionError
      else
        let invDenom = 1 / (dot e0 e0 * dot e1 e1 - dot e0 e1 * dot e0 e1);
            v = (dot e1 e1 * dot e2 e0 - dot e0 e1 * dot e2 e1) * invDenom;
            w = (dot e0 e0 * dot e2 e1 - dot e0 e1 * dot e2 e0) * invDenom;
            u = 1 - v - w
        in Inr (Some \<lparr>m_u = u, m_v = v, m_w = w, m_t = t, mirrorTri = k,
                      intersected = (u > biasNeg cfg \<and> v > biasNeg cfg \<and> w > biasNeg cfg)\<rparr>))"

lemma triIntersection_bary:
  "triIntersection cfg p mm k =
     (if cull cfg \<and> plane_t (mm ! k) p < 0 then Inr None
      else if dot (fnormal (mm ! k)) (normal (v0 (mm ! k))) = 0 \<or>
              dot (fnormal (mm ! k)) (normal (v1 (mm ! k))) = 0 \<or>
              dot (fnormal (mm ! k)) (normal (v2 (mm ! k))) = 0 then Inl ZeroDivisionError
      else bary_result cfg k (plane_t (mm ! k) p)
             (vsub (offset_corner (mm ! k) p (v1 (mm ! k))) (offset_corner (mm ! k) p (v0 (mm ! k))))
             (vsub (offset_corner (mm ! k) p (v2 (mm ! k))) (offset_corner (mm ! k) p (v0 (mm ! k))))
             (vsub p (offset_corner (mm ! k) p (v0 (mm ! k)))))"
  by (simp add: triIntersection_def bary_result_def offset_corner_def plane_t_def Let_def)

lemma bary_result_t:
  "bary_result cfg k t e0 e1 e2 = Inr (Some md) \<Longrightarrow>
   bary_result cfg k t' e0 e1 e2 = Inr (Some (md\<lparr>m_t := t'\<rparr>))"
  by (auto simp: bary_result_def Let_def split: if_splits)

lemma flat_mirror_second_pass:
  assumes "\<not> cull cfg" and "\<not> smoothed cfg"
    and unit: "dot (fnormal (mm ! k)) (fnormal (mm ! k)) = 1"
    and n0: "normal (v0 (mm ! k)) = fnormal (mm ! k)"
    and n1: "normal (v1 (mm ! k)) = fnormal (mm ! k)"
    and n2: "normal (v2 (mm ! k)) = fnormal (mm ! k)"
    and first: "triIntersection cfg p mm k = Inr (Some md)"
    and move: "mirrorVert cfg mm p md False = Inr p1"
  shows "triIntersection cfg p1 mm k = Inr (Some (md\<lparr>m_t := - m_t md\<rparr>))"
proof -
  let ?f = "mm ! k"
  let ?n = "fnormal ?f"
  from first have md: "m_t md = plane_t ?f p" "mirrorTri md = k"
    by (simp_all add: triIntersection_Some)
  from assms(2) move md have p1: "p1 = vadd p (smul (- 2 * plane_t ?f p) ?n)"
    by (auto simp: mirrorVert_def calcFlatMirrorVector_def)
  have t1: "plane_t ?f p1 = - plane_t ?f p"
    unfolding p1 by (rule plane_t_reflect[OF unit])
  have off: "vsub (offset_corner ?f p1 v) (offset_corner ?f p1 (v0 ?f)) =
             vsub (offset_corner ?f p v) (offset_corner ?f p (v0 ?f))"
    if "normal v = ?n" for v
    using that unit n0 t1
    by (cases "co v"; cases "co (v0 ?f)"; cases ?n) (simp add: offset_corner_def)
  have e2: "vsub p1 (offset_corner ?f p1 (v0 ?f)) = vsub p (offset_corner ?f p (v0 ?f))"
    using unit n0 t1 unfolding p1
    by (cases p; cases "co (v0 ?f)"; cases ?n) (simp add: offset_corner_def algebra_simps)
  from first unit n0 n1 n2 assms(1)
  have "bary_result cfg k (plane_t ?f p)
             (vsub (offset_corner ?f p (v1 ?f)) (offset_corner ?f p (v0 ?f)))
             (vsub (offset_corner ?f p (v2 ?f)) (offset_corner ?f p (v0 ?f)))
             (vsub p (offset_corner ?f p (v0 ?f))) = Inr (Some md)"
    by (simp add: triIntersection_bary)
  from bary_result_t[OF this, of "- m_t md"] md(1) t1 unit n0 n1 n2 assms(1) off[OF n1] off[OF n2] e2
  show ?thesis by (simp add: triIntersection_bary)
qed

subsection \<open>The adjacency search leaves the tags as it found them\<close>

text \<open>
  The invariant of the search: the faces keep their number, and a face differs from what
  it was on entry only by a tag that is set, and then it is in \<open>taggedFaces\<close>.
\<close>

definition tag_inv :: "BMFace list \<Rightarrow> BMFace list \<Rightarrow> nat list \<Rightarrow> bool" where
  "tag_inv mm m tagList =
     (length m = length mm \<and>
      (\<forall>j<length mm. m ! j = mm ! j \<or> (j \<in> set tagList \<and> m ! j = (mm ! j)\<lparr>tag := True\<rparr>)))"

lemma tag_inv_start: "tag_inv mm (mm[k := (mm ! k)\<lparr>tag := True\<rparr>]) [k]"
  unfolding tag_inv_def
proof (intro conjI allI impI)
  show "length (mm[k := (mm ! k)\<lparr>tag := True\<rparr>]) = length mm" by simp
next
  fix j assume "j < length mm"
  then show "mm[k := (mm ! k)\<lparr>tag := True\<rparr>] ! j = mm ! j \<or>
             (j \<in> set [k] \<and> mm[k := (mm ! k)\<lparr>tag := True\<rparr>] ! j = (mm ! j)\<lparr>tag := True\<rparr>)"
    by (cases "j = k") simp_all
qed

lemma tag_inv_step:
  assumes "tag_inv mm m tagList" and "f < length m"
  shows "tag_inv mm (m[f := (m ! f)\<lparr>tag := True\<rparr>]) (tagList @ [f])"
  using assms by (auto simp: tag_inv_def nth_list_update)

lemma queueConnectedFaces_tag_inv:
  "queueConnectedFaces fs (m, queue, tagList) = (m', queue', tagList') \<Longrightarrow>
   tag_inv mm m tagList \<Longrightarrow> tag_inv mm m' tagList'"
proof (induction fs arbitrary: m queue tagList)
  case Nil
  then show ?case by simp
next
  case (Cons f fs)
  show ?case
  proof (cases "f < length m \<and> \<not> tag (m ! f)")
    case True
    with Cons.prems(1)
    have "queueConnectedFaces fs (m[f := (m ! f)\<lparr>tag := True\<rparr>], queue @ [f], tagList @ [f]) =
          (m', queue', tagList')" by simp
    moreover from True Cons.prems(2) have "tag_inv mm (m[f := (m ! f)\<lparr>tag := True\<rparr>]) (tagList @ [f])"
      by (intro tag_inv_step) simp_all
    ultimately show ?thesis by (rule Cons.IH)
  next
    case False
    with Cons.prems(1) have "queueConnectedFaces fs (m, queue, tagList) = (m', queue', tagList')"
      by auto
    then show ?thesis using Cons.prems(2) by (rule Cons.IH)
  qed
qed

lemma findFirstTri_loop_tag_inv:
  "findFirstTri_loop cfg p vi sd m queue tagList = Inr (sd', m', tagList') \<Longrightarrow>
   tag_inv mm m tagList \<Longrightarrow> tag_inv mm m' tagList'"
proof (induction cfg p vi sd m queue tagList rule: findFirstTri_loop.induct)
  case (1 cfg vertCo vi sd m tagList)
  then show ?case by simp
next
  case (2 cfg vertCo vi sd m face queue tagList)
  show ?case
  proof (cases "triIntersection cfg vertCo m face")
    case (Inl e)
    with "2.prems" show ?thesis by simp
  next
    case (Inr mDat)
    show ?thesis
    proof (cases "valid_hit mDat")
      case None
      obtain m1 q1 tl1 where q: "queueConnectedFaces (link (m ! face)) (m, queue, tagList) = (m1, q1, tl1)"
        by (cases "queueConnectedFaces (link (m ! face)) (m, queue, tagList)") auto
      from "2.prems"(1) Inr None q
      have r: "findFirstTri_loop cfg vertCo vi sd m1 q1 tl1 = Inr (sd', m', tagList')" by simp
      from q "2.prems"(2) have "tag_inv mm m1 tl1" by (rule queueConnectedFaces_tag_inv)
      with "2.IH"[OF Inr None q[symmetric] refl r] show ?thesis by simp
    next
      case (Some d)
      with "2.prems" Inr show ?thesis by auto
    qed
  qed
qed

lemma untag_fold:
  "length (fold (\<lambda>f m. m[f := (m ! f)\<lparr>tag := False\<rparr>]) tagList m) = length m \<and>
   (\<forall>j<length m. fold (\<lambda>f m. m[f := (m ! f)\<lparr>tag := False\<rparr>]) tagList m ! j =
      (if j \<in> set tagList then (m ! j)\<lparr>tag := False\<rparr> else m ! j))"
proof (induction tagList arbitrary: m)
  case Nil
  then show ?case by simp
next
  case (Cons f fs)
  let ?m1 = "m[f := (m ! f)\<lparr>tag := False\<rparr>]"
  let ?r = "fold (\<lambda>f m. m[f := (m ! f)\<lparr>tag := False\<rparr>]) fs ?m1"
  from Cons.IH[of ?m1] have len: "length ?r = length m"
    and nth: "\<And>j. j < length m \<Longrightarrow> ?r ! j = (if j \<in> set fs then (?m1 ! j)\<lparr>tag := False\<rparr> else ?m1 ! j)"
    by simp_all
  have "?r ! j = (if j \<in> set (f # fs) then (m ! j)\<lparr>tag := False\<rparr> else m ! j)"
    if "j < length m" for j
    using nth[OF that] that by (cases "j = f") simp_all
  with len show ?case by simp
qed

text \<open>
  Three faces in a row; every face lists the two others as its neighbours. Seen from above
  the second face, a search that starts at the first face stops at the second, with the
  third still in the queue.
\<close>

definition ex_tri_at :: "real \<Rightarrow> nat list \<Rightarrow> BMFace" where
  "ex_tri_at x ls = \<lparr>fnormal = (0, 0, 1),
                  v0 = \<lparr>co = (x, 0, 0), normal = (0, 0, 1)\<rparr>,
                  v1 = \<lparr>co = (x + 1, 0, 0), normal = (0, 0, 1)\<rparr>,
                  v2 = \<lparr>co = (x, 1, 0), normal = (0, 0, 1)\<rparr>,
                  tag = False, link = ls\<rparr>"

definition ex_strip :: "BMFace list" where
  "ex_strip = [ex_tri_at 0 [1, 2], ex_tri_at 2 [0, 2], ex_tri_at 4 [0, 1]]"

text \<open>
  Claim C10. When no face of the mirror mesh is tagged on entry and \<open>findFirstTri\<close>
  returns, the mirror mesh is what it was on entry: every tag the call has set, also the
  tag of a face still in the queue when a hit ends the search, is \<open>False\<close> again.
\<close>

theorem findFirstTri_restores_tags:
  assumes "\<forall>f\<in>set mm. \<not> tag f"
    and "findFirstTri cfg p vi lastMFace sd mm = Inr (sd', mm')"
  shows "mm' = mm \<and> (\<forall>f\<in>set mm'. \<not> tag f)"
proof -
  from assms(2) obtain m1 tl where
    run: "findFirstTri_loop cfg p vi sd (mm[lastMFace := (mm ! lastMFace)\<lparr>tag := True\<rparr>])
            [lastMFace] [lastMFace] = Inr (sd', m1, tl)"
    and res: "mm' = fold (\<lambda>f m. m[f := (m ! f)\<lparr>tag := False\<rparr>]) tl m1"
    by (auto simp: findFirstTri_def simp del: findFirstTri_loop.simps split: sum.splits prod.splits)
  from run tag_inv_start have inv: "tag_inv mm m1 tl"
    by (rule findFirstTri_loop_tag_inv)
  have untagged: "(mm ! j)\<lparr>tag := False\<rparr> = mm ! j" if "j < length mm" for j
    using assms(1) that by (simp add: all_set_conv_all_nth)
  have "mm' = mm"
  proof (rule nth_equalityI)
    show "length mm' = length mm"
      using inv untag_fold[of tl m1] by (simp add: res tag_inv_def)
  next
    fix j assume "j < length mm'"
    then have j: "j < length mm" "j < length m1"
      using inv untag_fold[of tl m1] by (simp_all add: res tag_inv_def)
    from inv j have alt: "m1 ! j = mm ! j \<or> (j \<in> set tl \<and> m1 ! j = (mm ! j)\<lparr>tag := True\<rparr>)"
      by (simp add: tag_inv_def)
    from untag_fold[of tl m1] j
    have "mm' ! j = (if j \<in> set tl then (m1 ! j)\<lparr>tag := False\<rparr> else m1 ! j)"
      by (simp add: res)
    with alt untagged[OF j(1)] show "mm' ! j = mm ! j"
      by (auto split: if_splits)
  qed
  with assms(1) show ?thesis by simp
qed


theorem findFirstTri_restores_tags_witness:
  "map tag ex_strip = [False, False, False] \<and>
   findFirstTri ex_cfg (9/4, 1/4, 1) 0 0 [SearchData_init] ex_strip =
     Inr ([\<lparr>closeDistance = largeFloat, closeVert = None,
            mirrorData = Some \<lparr>m_u = 1/2, m_v = 1/4, m_w = 1/4, m_t = 1, mirrorTri = 1,
                               intersected = True\<rparr>\<rparr>], ex_strip)"
proof -
  have h1: "\<forall>f\<in>set ex_strip. \<not> tag f"
    by (simp add: ex_strip_def ex_tri_at_def)
  have "\<exists>mm'. findFirstTri ex_cfg (9/4, 1/4, 1) 0 0 [SearchData_init] ex_strip =
     Inr ([\<lparr>closeDistance = largeFloat, closeVert = None,
            mirrorData = Some \<lparr>m_u = 1/2, m_v = 1/4, m_w = 1/4, m_t = 1, mirrorTri = 1,
                               intersected = True\<rparr>\<rparr>], mm')"
    by (simp add: findFirstTri_def ex_strip_def ex_tri_at_def triIntersection_def ex_cfg_def
        valid_hit_def setMirror_def SearchData_init_def Let_def)
  then obtain mm' where h2: "findFirstTri ex_cfg (9/4, 1/4, 1) 0 0 [SearchData_init] ex_strip =
     Inr ([\<lparr>closeDistance = largeFloat, closeVert = None,
            mirrorData = Some \<lparr>m_u = 1/2, m_v = 1/4, m_w = 1/4, m_t = 1, mirrorTri = 1,
                               intersected = True\<rparr>\<rparr>], mm')" by blast
  from findFirstTri_restores_tags[OF h1 h2] have "mm' = ex_strip" by simp
  with h2 show ?thesis by (simp add: ex_strip_def ex_tri_at_def)
qed

subsection \<open>How a call of mirrorMesh advances\<close>

text \<open>
  \<open>advances st st'\<close>: from \<open>st\<close> to \<open>st'\<close> the log has grown by distinct vertices, each of
  them without a record in \<open>st\<close> and with one in \<open>st'\<close>; the record of every other vertex
  is unchanged, and so is the number of vertices.
\<close>

definition advances :: "mstate \<Rightarrow> mstate \<Rightarrow> bool" where
  "advances st st' =
     (\<exists>new. mirrorLog st' = mirrorLog st @ new \<and> distinct new \<and>
        length (marks st') = length (marks st) \<and>
        length (mesh_verts st') = length (mesh_verts st) \<and>
        (\<forall>j\<in>set new. j < length (marks st) \<and> marks st ! j = None \<and> marks st' ! j \<noteq> None) \<and>
        (\<forall>j<length (marks st). j \<notin> set new \<longrightarrow> marks st' ! j = marks st ! j))"

lemma advances_same:
  "marks st' = marks st \<Longrightarrow> mirrorLog st' = mirrorLog st \<Longrightarrow>
   length (mesh_verts st') = length (mesh_verts st) \<Longrightarrow> advances st st'"
  unfolding advances_def by (rule exI[of _ "[]"]) simp

lemma advances_refl: "advances st st"
  by (simp add: advances_same)

lemma advances_one:
  assumes "i < length (marks st)" and "marks st ! i = None"
    and "marks st' = (marks st)[i := Some d]" and "mirrorLog st' = mirrorLog st @ [i]"
    and "length (mesh_verts st') = length (mesh_verts st)"
  shows "advances st st'"
  unfolding advances_def using assms by (intro exI[of _ "[i]"]) (simp add: nth_list_update)

lemma advances_trans:
  assumes "advances st st1" and "advances st1 st2"
  shows "advances st st2"
proof -
  from assms(1) obtain n1 where a:
    "mirrorLog st1 = mirrorLog st @ n1" "distinct n1" "length (marks st1) = length (marks st)"
    "length (mesh_verts st1) = length (mesh_verts st)"
    "\<forall>j\<in>set n1. j < length (marks st) \<and> marks st ! j = None \<and> marks st1 ! j \<noteq> None"
    "\<forall>j<length (marks st). j \<notin> set n1 \<longrightarrow> marks st1 ! j = marks st ! j"
    unfolding advances_def by blast
  from assms(2) obtain n2 where b:
    "mirrorLog st2 = mirrorLog st1 @ n2" "distinct n2" "length (marks st2) = length (marks st1)"
    "length (mesh_verts st2) = length (mesh_verts st1)"
    "\<forall>j\<in>set n2. j < length (marks st1) \<and> marks st1 ! j = None \<and> marks st2 ! j \<noteq> None"
    "\<forall>j<length (marks st1). j \<notin> set n2 \<longrightarrow> marks st2 ! j = marks st1 ! j"
    unfolding advances_def by blast
  have disj: "set n1 \<inter> set n2 = {}" using a(5) b(5) by auto
  have "mirrorLog st2 = mirrorLog st @ (n1 @ n2)" using a(1) b(1) by simp
  moreover have "distinct (n1 @ n2)" using a(2) b(2) disj by simp
  moreover have "length (marks st2) = length (marks st)" using a(3) b(3) by simp
  moreover have "length (mesh_verts st2) = length (mesh_verts st)" using a(4) b(4) by simp
  moreover have "\<forall>j\<in>set (n1 @ n2). j < length (marks st) \<and> marks st ! j = None \<and> marks st2 ! j \<noteq> None"
  proof
    fix j assume "j \<in> set (n1 @ n2)"
    then consider "j \<in> set n1" | "j \<in> set n2" "j \<notin> set n1" by auto
    then show "j < length (marks st) \<and> marks st ! j = None \<and> marks st2 ! j \<noteq> None"
    proof cases
      case 1
      with a(5) have j: "j < length (marks st)" "marks st ! j = None" "marks st1 ! j \<noteq> None" by auto
      with b(5) have "j \<notin> set n2" by auto
      with b(6) j(1) a(3) have "marks st2 ! j = marks st1 ! j" by simp
      with j show ?thesis by simp
    next
      case 2
      with b(5) a(3) have j: "j < length (marks st)" "marks st1 ! j = None" "marks st2 ! j \<noteq> None" by auto
      with a(6) 2(2) have "marks st ! j = None" by simp
      with j show ?thesis by simp
    qed
  qed
  moreover have "\<forall>j<length (marks st). j \<notin> set (n1 @ n2) \<longrightarrow> marks st2 ! j = marks st ! j"
    using a(3,6) b(6) by simp
  ultimately show ?thesis unfolding advances_def by blast
qed

lemma mirrorConnected_step_advances:
  assumes "mirrorConnected_step cfg it i st queue = Inr (st', queue')"
  shows "advances st st'"
  using mirrorConnected_step_marks[OF assms]
  by (auto intro: advances_same advances_one)

lemma mirrorConnected_loop_advances:
  "mirrorConnected_loop cfg it st queue = Inr st' \<Longrightarrow> advances st st'"
proof (induction cfg it st queue rule: mirrorConnected_loop.induct)
  case (1 cfg intersectionTest st)
  then show ?case by (simp add: advances_refl)
next
  case (2 cfg intersectionTest st i queue)
  from "2.prems" obtain st1 q1 where
    s: "mirrorConnected_step cfg intersectionTest i st queue = Inr (st1, q1)"
    and r: "mirrorConnected_loop cfg intersectionTest st1 q1 = Inr st'"
    by (auto split: sum.splits)
  from s have "advances st st1" by (rule mirrorConnected_step_advances)
  moreover from "2.IH"[OF s refl r] have "advances st1 st'" .
  ultimately show ?case by (rule advances_trans)
qed

lemma mirrorConnected_advances:
  assumes "mirrorConnected cfg i it st = Inr st'"
  shows "advances st st'"
proof -
  obtain st1 q where q: "queue_from i st [] = (st1, q)" by (cases "queue_from i st []") auto
  with assms have "mirrorConnected_loop cfg it st1 q = Inr st'" by (simp add: mirrorConnected_def)
  then have "advances st1 st'" by (rule mirrorConnected_loop_advances)
  moreover from queue_from_marks[OF q] have "advances st st1" by (intro advances_same) simp_all
  ultimately show ?thesis by (blast intro: advances_trans)
qed

lemma keep_closest_mem:
  "keep_closest cur ds = Some r \<Longrightarrow> cur = Some r \<or> r \<in> set ds"
  by (induction ds arbitrary: cur) (auto split: option.splits if_splits)

lemma valid_intersections_intersected:
  "r \<in> set (valid_intersections cfg p mm ks) \<Longrightarrow> intersected r"
proof (induction ks)
  case Nil
  then show ?case by (simp add: valid_intersections_def map_filter_simps)
next
  case (Cons k ks)
  show ?case
  proof (cases "case triIntersection cfg p mm k of Inl e \<Rightarrow> None | Inr r \<Rightarrow> valid_hit r")
    case None
    with Cons show ?thesis by (simp add: valid_intersections_def map_filter_simps)
  next
    case (Some d)
    then have "intersected d" by (auto split: sum.splits dest: valid_hit_Some)
    with Cons Some show ?thesis by (auto simp: valid_intersections_def map_filter_simps)
  qed
qed

lemma seed_body_advances:
  assumes "i < length (searchData st)" and "seed_body cfg i st = Inr st'"
  shows "advances st st'"
proof (cases "notMirrored (searchData st ! i)")
  case False
  with assms(2) show ?thesis by (simp add: seed_body_def advances_refl)
next
  case True
  let ?sd = "searchData st"
  from True assms(2) obtain sd' where
    f: "findClosestTri cfg (vco (mesh_verts st ! i)) i (mirrorFaces st) ?sd = Inr sd'"
    by (auto simp: seed_body_def split: sum.splits)
  then have "findClosestTri_loop cfg (vco (mesh_verts st ! i)) i (mirrorFaces st)
               [0..<length (mirrorFaces st)] ?sd = Inr sd'"
    by (simp add: findClosestTri_def)
  from findClosestTri_loop_keep[OF assms(1) this] True
  have len: "length sd' = length ?sd"
    and rec: "mirrorData (sd' ! i) = keep_closest None
                (valid_intersections cfg (vco (mesh_verts st ! i)) (mirrorFaces st) [0..<length (mirrorFaces st)])"
    and others: "\<And>j. j \<noteq> i \<Longrightarrow> sd' ! j = ?sd ! j"
    by (simp_all add: notMirrored_def)
  have inter: "intersected d" if "mirrorData (sd' ! i) = Some d" for d
    using that rec keep_closest_mem valid_intersections_intersected by fastforce
  have marks1: "map mirrorData sd' = (marks st)[i := mirrorData (sd' ! i)]"
    using len others assms(1) by (auto simp: marks_def intro!: nth_equalityI simp: nth_list_update)
  show ?thesis
  proof (cases "mirrorData (sd' ! i)")
    case None
    then have "valid_hit (mirrorData (sd' ! i)) = None" by (simp add: valid_hit_def)
    with True f assms(2) have "st' = st\<lparr>searchData := sd'\<rparr>" by (simp add: seed_body_def)
    moreover have "map mirrorData sd' = marks st"
      using marks1 None True assms(1) by (simp add: marks_def notMirrored_def list_update_same_conv)
    ultimately show ?thesis by (intro advances_same) (simp_all add: marks_def)
  next
    case (Some d)
    with inter have vh: "valid_hit (mirrorData (sd' ! i)) = Some d" by (simp add: valid_hit_def)
    with True f assms(2) obtain st2 where
      mv: "mirrorVert_at cfg i d False (st\<lparr>searchData := sd'\<rparr>) = Inr st2"
      and rest: "(if \<not> closestOnly cfg then mirrorConnected cfg i True st2 else Inr st2) = Inr st'"
      by (auto simp: seed_body_def split: sum.splits)
    from mirrorVert_at_marks[OF mv] have "marks st2 = (marks st)[i := Some d]"
      and "mirrorLog st2 = mirrorLog st @ [i]"
      and "length (mesh_verts st2) = length (mesh_verts st)"
      using marks1 Some by (simp_all add: marks_def)
    with True assms(1) have "advances st st2"
      by (intro advances_one[where d = d]) (simp_all add: marks_def notMirrored_def)
    moreover from rest have "advances st2 st'"
      by (auto split: if_splits intro: mirrorConnected_advances advances_refl)
    ultimately show ?thesis by (rule advances_trans)
  qed
qed

lemma advances_length: "advances st st' \<Longrightarrow> length (searchData st') = length (searchData st)"
  by (auto simp: advances_def marks_def dest: arg_cong[where f = length])

lemma for_each_advances:
  assumes "for_each body xs st = Inr st'"
    and "\<And>x s s'. x \<in> set xs \<Longrightarrow> length (searchData s) = length (searchData st) \<Longrightarrow>
            body x s = Inr s' \<Longrightarrow> advances s s'"
  shows "advances st st'"
  using assms
proof (induction xs arbitrary: st)
  case Nil
  then show ?case by (simp add: advances_refl)
next
  case (Cons x xs)
  from Cons.prems(1) obtain s1 where b: "body x st = Inr s1" and r: "for_each body xs s1 = Inr st'"
    by (auto split: sum.splits)
  from Cons.prems(2)[OF _ refl b] have a1: "advances st s1" by simp
  then have len: "length (searchData s1) = length (searchData st)" by (rule advances_length)
  have "advances s1 st'"
  proof (rule Cons.IH[OF r])
    fix y s s' assume "y \<in> set xs" "length (searchData s) = length (searchData s1)" "body y s = Inr s'"
    with len show "advances s s'" by (intro Cons.prems(2)[of y s s']) simp_all
  qed
  with a1 show ?case by (rule advances_trans)
qed

lemma seed_and_propagate_advances:
  assumes "seed_and_propagate cfg mesh mm = Inr st1"
  shows "advances \<lparr>mesh_verts = mesh, searchData = replicate (length mesh) SearchData_init,
                   mirrorFaces = mm, mirrorLog = []\<rparr> st1"
proof (rule for_each_advances[OF assms[unfolded seed_and_propagate_def]])
  fix x s s'
  assume "x \<in> set [0..<length mesh]"
    and "length (searchData s) = length (searchData \<lparr>mesh_verts = mesh,
           searchData = replicate (length mesh) SearchData_init, mirrorFaces = mm, mirrorLog = []\<rparr>)"
    and b: "seed_body cfg x s = Inr s'"
  then have "x < length (searchData s)" by simp
  then show "advances s s'" using b by (rule seed_body_advances)
qed

lemma mirrorNonIntersecting_advances:
  assumes "mirrorNonIntersecting cfg n st = Inr st'"
  shows "advances st st'"
proof (cases "n > 0")
  case False
  with assms show ?thesis by (simp add: mirrorNonIntersecting_def advances_refl)
next
  case True
  with assms have "for_each (\<lambda>i s. if mirrored (searchData s ! i) then mirrorConnected cfg i False s else Inr s)
             [0..<length (searchData st)] st = Inr st'"
    by (simp add: mirrorNonIntersecting_def)
  then show ?thesis
  proof (rule for_each_advances)
    fix x s s'
    assume b: "(if mirrored (searchData s ! x) then mirrorConnected cfg x False s else Inr s) = Inr s'"
    show "advances s s'"
    proof (cases "mirrored (searchData s ! x)")
      case True
      with b have "mirrorConnected cfg x False s = Inr s'" by simp
      then show ?thesis by (rule mirrorConnected_advances)
    next
      case False
      with b show ?thesis by (simp add: advances_refl)
    qed
  qed
qed

lemma filter_None_mono:
  "length b = length a \<Longrightarrow> (\<forall>j<length a. a ! j \<noteq> None \<longrightarrow> b ! j \<noteq> None) \<Longrightarrow>
   length (filter (\<lambda>m. m = None) b) \<le> length (filter (\<lambda>m. m = None) a)"
proof (induction a arbitrary: b)
  case Nil
  then show ?case by simp
next
  case (Cons x xs)
  from Cons.prems(1) obtain y ys where b: "b = y # ys" by (cases b) simp_all
  from Cons.prems(1) b have len: "length ys = length xs" by simp
  have tail: "\<forall>j<length xs. xs ! j \<noteq> None \<longrightarrow> ys ! j \<noteq> None"
  proof (intro allI impI)
    fix j assume "j < length xs" and "xs ! j \<noteq> None"
    with Cons.prems(2)[rule_format, of "Suc j"] b show "ys ! j \<noteq> None" by simp
  qed
  from len tail have le: "length (filter (\<lambda>m. m = None) ys) \<le> length (filter (\<lambda>m. m = None) xs)"
    by (rule Cons.IH)
  from Cons.prems(2)[rule_format, of 0] b have head: "x \<noteq> None \<Longrightarrow> y \<noteq> None" by simp
  show ?case
  proof (cases "x = None")
    case True
    with le b show ?thesis by simp
  next
    case False
    with head have "y \<noteq> None" by simp
    with False le b show ?thesis by auto
  qed
qed

lemma advances_unmirrored:
  assumes "advances st st'"
  shows "unmirrored (searchData st') \<le> unmirrored (searchData st)"
proof -
  from assms obtain new where
    len: "length (marks st') = length (marks st)"
    and new: "\<forall>j\<in>set new. j < length (marks st) \<and> marks st ! j = None \<and> marks st' ! j \<noteq> None"
    and old: "\<forall>j<length (marks st). j \<notin> set new \<longrightarrow> marks st' ! j = marks st ! j"
    unfolding advances_def by blast
  have imp: "\<forall>j<length (marks st). marks st ! j \<noteq> None \<longrightarrow> marks st' ! j \<noteq> None"
  proof (intro allI impI)
    fix j assume j: "j < length (marks st)" and m: "marks st ! j \<noteq> None"
    have "j \<notin> set new"
    proof
      assume jn: "j \<in> set new"
      from bspec[OF new jn] have "marks st ! j = None" by simp
      with m show False by simp
    qed
    with old j have "marks st' ! j = marks st ! j" by simp
    with m show "marks st' ! j \<noteq> None" by simp
  qed
  have "length (filter (\<lambda>m. m = None) (marks st')) \<le> length (filter (\<lambda>m. m = None) (marks st))"
    using len imp by (rule filter_None_mono)
  then show ?thesis by (simp only: unmirrored_marks)
qed

lemma unmirrored_le: "unmirrored sd \<le> length sd"
  by (simp add: unmirrored_def)

lemma filter_all_length:
  "length (filter P xs) = length xs \<Longrightarrow> x \<in> set xs \<Longrightarrow> P x"
proof (induction xs)
  case Nil
  then show ?case by simp
next
  case (Cons a xs)
  have le: "length (filter P xs) \<le> length xs" by (rule length_filter_le)
  show ?case
  proof (cases "P a")
    case True
    with Cons show ?thesis by auto
  next
    case False
    with Cons.prems(1) le show ?thesis by simp
  qed
qed

lemma unmirrored_all:
  assumes "unmirrored sd = length sd" and "i < length sd"
  shows "\<not> mirrored (sd ! i)"
proof -
  from assms(2) have "sd ! i \<in> set sd" by simp
  with assms(1) have "notMirrored (sd ! i)"
    unfolding unmirrored_def by (rule filter_all_length)
  then show ?thesis by (simp add: mirrored_def notMirrored_def)
qed

lemma for_each_skip:
  "(\<And>x. x \<in> set xs \<Longrightarrow> body x s = Inr s) \<Longrightarrow> for_each body xs s = Inr s"
  by (induction xs) simp_all

lemma mirrorNonIntersecting_none:
  assumes "unmirrored (searchData st) = length (searchData st)"
  shows "mirrorNonIntersecting cfg n st = Inr st"
proof -
  have "for_each (\<lambda>i s. if mirrored (searchData s ! i) then mirrorConnected cfg i False s else Inr s)
          [0..<length (searchData st)] st = Inr st"
  proof (rule for_each_skip)
    fix x assume "x \<in> set [0..<length (searchData st)]"
    then have "x < length (searchData st)" by simp
    with assms have "\<not> mirrored (searchData st ! x)" by (rule unmirrored_all)
    then show "(if mirrored (searchData st ! x) then mirrorConnected cfg x False st else Inr st) = Inr st"
      by simp
  qed
  then show ?thesis by (simp add: mirrorNonIntersecting_def)
qed

lemma mirrorMesh_phases:
  assumes "mirrorMesh cfg mesh mm = Inr (count, st)"
  shows "\<exists>st1. seed_and_propagate cfg mesh mm = Inr st1 \<and> count = unmirrored (searchData st1) \<and>
           (if closestOnly cfg \<and> \<not> onlyIntersecting cfg
            then mirrorNonIntersecting cfg count st1 = Inr st else st = st1)"
proof (cases "seed_and_propagate cfg mesh mm")
  case (Inl e)
  with assms show ?thesis by (simp add: mirrorMesh_def)
next
  case (Inr st1)
  show ?thesis
  proof (cases "closestOnly cfg \<and> \<not> onlyIntersecting cfg")
    case True
    with assms Inr show ?thesis
      by (simp add: mirrorMesh_def Let_def unmirrored_def split: sum.splits)
  next
    case False
    with assms Inr show ?thesis
      by (auto simp add: mirrorMesh_def Let_def unmirrored_def)
  qed
qed

lemma advances_from_start:
  assumes "advances \<lparr>mesh_verts = mesh, searchData = replicate (length mesh) SearchData_init,
                     mirrorFaces = mm, mirrorLog = []\<rparr> st"
  shows "distinct (mirrorLog st) \<and> length (searchData st) = length mesh \<and>
         length (mesh_verts st) = length mesh \<and>
         set (mirrorLog st) = {i. i < length mesh \<and> mirrored (searchData st ! i)}"
proof -
  define st0 where "st0 = \<lparr>mesh_verts = mesh, searchData = replicate (length mesh) SearchData_init,
                     mirrorFaces = mm, mirrorLog = []\<rparr>"
  have l0: "mirrorLog st0 = []" and m0: "length (marks st0) = length mesh"
    and v0: "length (mesh_verts st0) = length mesh"
    by (simp_all add: st0_def marks_def)
  have n0: "marks st0 ! j = None" if "j < length mesh" for j
    using that by (simp add: st0_def marks_def SearchData_init_def)
  from assms have "advances st0 st" by (simp add: st0_def)
  then obtain new where
    log0: "mirrorLog st = mirrorLog st0 @ new" and d: "distinct new"
    and len0: "length (marks st) = length (marks st0)"
    and vlen0: "length (mesh_verts st) = length (mesh_verts st0)"
    and new0: "\<forall>j\<in>set new. j < length (marks st0) \<and> marks st0 ! j = None \<and> marks st ! j \<noteq> None"
    and old0: "\<forall>j<length (marks st0). j \<notin> set new \<longrightarrow> marks st ! j = marks st0 ! j"
    unfolding advances_def by blast
  from log0 l0 have log: "mirrorLog st = new" by simp
  from len0 m0 have len: "length (marks st) = length mesh" by simp
  have m: "mirrored (searchData st ! j) \<longleftrightarrow> marks st ! j \<noteq> None" if "j < length mesh" for j
    using that len by (simp add: marks_def mirrored_def)
  have "set new = {i. i < length mesh \<and> mirrored (searchData st ! i)}"
  proof (intro equalityI subsetI)
    fix j assume jn: "j \<in> set new"
    from bspec[OF new0 jn] m0 have "j < length mesh" "marks st ! j \<noteq> None" by simp_all
    with m[of j] show "j \<in> {i. i < length mesh \<and> mirrored (searchData st ! i)}" by simp
  next
    fix j assume "j \<in> {i. i < length mesh \<and> mirrored (searchData st ! i)}"
    then have j: "j < length mesh" "marks st ! j \<noteq> None" using m[of j] by simp_all
    show "j \<in> set new"
    proof (rule ccontr)
      assume "j \<notin> set new"
      with old0[rule_format, of j] j(1) m0 have "marks st ! j = marks st0 ! j" by simp
      with n0[OF j(1)] j(2) show False by simp
    qed
  qed
  with log d len vlen0 v0 show ?thesis by (simp add: marks_def)
qed

lemma mirrorMesh_advances:
  assumes "mirrorMesh cfg mesh mm = Inr (count, st)"
  shows "advances \<lparr>mesh_verts = mesh, searchData = replicate (length mesh) SearchData_init,
                   mirrorFaces = mm, mirrorLog = []\<rparr> st"
proof -
  from mirrorMesh_phases[OF assms] obtain st1 where
    s1: "seed_and_propagate cfg mesh mm = Inr st1"
    and s2: "if closestOnly cfg \<and> \<not> onlyIntersecting cfg
             then mirrorNonIntersecting cfg count st1 = Inr st else st = st1"
    by blast
  from s1 have a1: "advances \<lparr>mesh_verts = mesh, searchData = replicate (length mesh) SearchData_init,
                   mirrorFaces = mm, mirrorLog = []\<rparr> st1"
    by (rule seed_and_propagate_advances)
  have "advances st1 st"
  proof (cases "closestOnly cfg \<and> \<not> onlyIntersecting cfg")
    case True
    with s2 have "mirrorNonIntersecting cfg count st1 = Inr st" by simp
    then show ?thesis by (rule mirrorNonIntersecting_advances)
  next
    case False
    with s2 show ?thesis by (simp add: advances_refl)
  qed
  with a1 show ?thesis by (rule advances_trans)
qed

subsection \<open>Runs on concrete meshes\<close>

text \<open>
  Two source vertices joined by an edge, the first above the triangle \<open>ex_flat_tri\<close>, the
  second beside it; and a chain of three, the first two above the triangle.
\<close>

lemma sqrt_less_iff_sq: "0 \<le> y \<Longrightarrow> (sqrt x < y) = (x < y\<^sup>2)"
  by (metis real_sqrt_less_iff real_sqrt_abs abs_of_nonneg)

lemma upt2: "[0..<2] = [0, 1]"
  by (simp add: upt_rec)

lemmas mirror_eval = mirrorMesh_def seed_and_propagate_def seed_body_def findClosestTri_def
  triIntersection_def valid_hit_def setClosestMirror_def setMirror_def mirrorVert_at_def
  mirrorVert_def calcFlatMirrorVector_def calcSmoothMirrorVector_def mirrorNonIntersecting_def
  mirrorConnected_def queue_from_def mirrorConnected_step_def findDistance_def findFirstTri_def
  notMirrored_def mirrored_def SearchData_init_def largeFloat_def vlength_def unmirrored_def
  Let_def sqrt_less_iff_sq

definition ex_sweep_cfg :: settings where
  "ex_sweep_cfg = \<lparr>biasNeg = - (1 / 10000), smoothed = True, cull = False, closestOnly = True,
                   onlyIntersecting = False\<rparr>"

definition ex_prop_cfg :: settings where
  "ex_prop_cfg = \<lparr>biasNeg = - (1 / 10000), smoothed = True, cull = False, closestOnly = False,
                  onlyIntersecting = False\<rparr>"

definition ex_two_verts :: "MeshVert list" where
  "ex_two_verts = [\<lparr>vco = (1/4, 1/4, 1), link_verts = [1]\<rparr>,
                   \<lparr>vco = (1/4, 13/4, 1), link_verts = [0]\<rparr>]"

definition ex_chain :: "MeshVert list" where
  "ex_chain = [\<lparr>vco = (1/4, 1/4, 1), link_verts = [1]\<rparr>,
               \<lparr>vco = (1/2, 1/4, 1), link_verts = [0, 2]\<rparr>,
               \<lparr>vco = (1/4, 13/4, 1), link_verts = [1]\<rparr>]"

lemma ex_chain_run:
  "\<exists>st. mirrorMesh ex_prop_cfg ex_chain [ex_flat_tri] = Inr (0, st) \<and> mirrorLog st = [0, 1, 2] \<and>
        map vco (mesh_verts st) = [(1/4, 1/4, - 1), (1/2, 1/4, - 1), (1/4, 13/4, - 1)]"
  by (simp add: mirror_eval ex_prop_cfg_def ex_chain_def ex_flat_tri_def upt3)

lemma ex_partial_run:
  "execute_mesh ex_cfg ex_two_verts [ex_flat_tri] =
     Inr (Some \<lparr>ob_verts = [(1/4, 1/4, - 1), (1/4, 13/4, 1)], normals_flipped = True\<rparr>,
          [Warning_not_all_intersect 1])"
  by (simp add: execute_mesh_def mirror_eval ex_cfg_def ex_two_verts_def ex_flat_tri_def upt2)

subsection \<open>Every vertex is moved at most once\<close>

text \<open>
  Claim C9. When \<open>mirrorMesh\<close> returns, \<open>mirrorLog\<close> (the vertices \<open>mirrorVert\<close> has been
  applied to, one entry for each application, whichever path applied it) has no vertex
  twice, and it holds exactly the vertices that have a mirror record: no vertex is moved
  more than once, a vertex is moved when its record is set, and never after.
\<close>

theorem mirrorMesh_moves_each_vertex_once:
  assumes "mirrorMesh cfg mesh mm = Inr (count, st)"
  shows "distinct (mirrorLog st) \<and> length (searchData st) = length mesh \<and>
         set (mirrorLog st) = {i. i < length mesh \<and> mirrored (searchData st ! i)}"
  using advances_from_start[OF mirrorMesh_advances[OF assms]] by simp

theorem mirrorMesh_moves_each_vertex_once_witness:
  "\<exists>count st. mirrorMesh ex_prop_cfg ex_chain [ex_flat_tri] = Inr (count, st) \<and>
      mirrorLog st = [0, 1, 2] \<and> distinct (mirrorLog st) \<and>
      length (searchData st) = length ex_chain \<and>
      set (mirrorLog st) = {i. i < length ex_chain \<and> mirrored (searchData st ! i)}"
proof -
  from ex_chain_run obtain st where
    h: "mirrorMesh ex_prop_cfg ex_chain [ex_flat_tri] = Inr (0, st)" and l: "mirrorLog st = [0, 1, 2]"
    by blast
  from mirrorMesh_moves_each_vertex_once[OF h] h l show ?thesis by blast
qed

subsection \<open>The count mirrorMesh returns and the report\<close>

text \<open>
  Claim C2, as amended. For a mesh that \<open>execute\<close> processes without an exception, the
  count that \<open>mirrorMesh\<close> returns is the number of vertices without a mirror record after
  the first loop (seed search and propagation). It is taken before the sweep of
  \<open>mirrorNonIntersecting\<close>, so it is at least the number of vertices without a record when
  the call ends, it is at most the number of vertices, and without the sweep (unless
  \<open>closestOnly\<close> and not \<open>onlyIntersecting\<close>) the two numbers are the same. When the count is
  the number of vertices, the sweep has changed nothing, no object is created and the
  mesh is reported as not intersecting. Otherwise the mirrored copy is created, its
  normals flipped, and the warning is reported exactly when the count is not zero.
\<close>

theorem execute_mesh_report:
  assumes "execute_mesh cfg mesh mm = Inr (ob, reports)"
  shows "\<exists>count st1 st.
           seed_and_propagate cfg mesh mm = Inr st1 \<and> mirrorMesh cfg mesh mm = Inr (count, st) \<and>
           count = unmirrored (searchData st1) \<and>
           unmirrored (searchData st) \<le> count \<and> count \<le> length mesh \<and>
           (closestOnly cfg \<and> \<not> onlyIntersecting cfg \<or> st = st1) \<and>
           (if count = length mesh
            then st = st1 \<and> ob = None \<and> reports = [Warning_no_mirror_created]
            else ob = Some \<lparr>ob_verts = map vco (mesh_verts st), normals_flipped = True\<rparr> \<and>
                 reports = (if count = 0 then [] else [Warning_not_all_intersect count]))"
proof -
  from assms obtain count st where mm: "mirrorMesh cfg mesh mm = Inr (count, st)"
    by (cases "mirrorMesh cfg mesh mm") (auto simp: execute_mesh_def)
  from mirrorMesh_phases[OF mm] obtain st1 where
    s1: "seed_and_propagate cfg mesh mm = Inr st1"
    and c: "count = unmirrored (searchData st1)"
    and s2: "if closestOnly cfg \<and> \<not> onlyIntersecting cfg
             then mirrorNonIntersecting cfg count st1 = Inr st else st = st1"
    by blast
  have len1: "length (searchData st1) = length mesh"
    using advances_from_start[OF seed_and_propagate_advances[OF s1]] by simp
  have vlen: "length (mesh_verts st) = length mesh"
    using advances_from_start[OF mirrorMesh_advances[OF mm]] by simp
  have a12: "advances st1 st"
  proof (cases "closestOnly cfg \<and> \<not> onlyIntersecting cfg")
    case True
    with s2 have "mirrorNonIntersecting cfg count st1 = Inr st" by simp
    then show ?thesis by (rule mirrorNonIntersecting_advances)
  next
    case False
    with s2 show ?thesis by (simp add: advances_refl)
  qed
  have le: "unmirrored (searchData st) \<le> count"
    unfolding c using a12 by (rule advances_unmirrored)
  have cl: "count \<le> length mesh"
    using unmirrored_le[of "searchData st1"] c len1 by simp
  have same: "st = st1" if "count = length mesh"
  proof (cases "closestOnly cfg \<and> \<not> onlyIntersecting cfg")
    case True
    from that c len1 have "unmirrored (searchData st1) = length (searchData st1)" by simp
    then have "mirrorNonIntersecting cfg count st1 = Inr st1" by (rule mirrorNonIntersecting_none)
    with s2 True show ?thesis by simp
  next
    case False
    with s2 show ?thesis by simp
  qed
  have disj: "closestOnly cfg \<and> \<not> onlyIntersecting cfg \<or> st = st1"
    using s2 by (cases "closestOnly cfg \<and> \<not> onlyIntersecting cfg") simp_all
  have out: "if count = length mesh
            then st = st1 \<and> ob = None \<and> reports = [Warning_no_mirror_created]
            else ob = Some \<lparr>ob_verts = map vco (mesh_verts st), normals_flipped = True\<rparr> \<and>
                 reports = (if count = 0 then [] else [Warning_not_all_intersect count])"
  proof (cases "count = length mesh")
    case True
    with assms mm vlen same show ?thesis by (simp add: execute_mesh_def)
  next
    case False
    with cl have "count < length mesh" by simp
    with assms mm vlen False show ?thesis by (auto simp: execute_mesh_def)
  qed
  from s1 mm c le cl disj out show ?thesis by blast
qed

theorem execute_mesh_report_witness:
  "execute_mesh ex_cfg ex_two_verts [ex_flat_tri] =
     Inr (Some \<lparr>ob_verts = [(1/4, 1/4, - 1), (1/4, 13/4, 1)], normals_flipped = True\<rparr>,
          [Warning_not_all_intersect 1]) \<and>
   (\<exists>count st1 st.
      seed_and_propagate ex_cfg ex_two_verts [ex_flat_tri] = Inr st1 \<and>
      mirrorMesh ex_cfg ex_two_verts [ex_flat_tri] = Inr (count, st) \<and>
      count = unmirrored (searchData st1) \<and>
      unmirrored (searchData st) \<le> count \<and> count \<le> length ex_two_verts \<and>
      [Warning_not_all_intersect 1] = (if count = 0 then [] else [Warning_not_all_intersect count]))"
proof -
  note h = ex_partial_run
  from execute_mesh_report[OF h] obtain count st1 st where
    "seed_and_propagate ex_cfg ex_two_verts [ex_flat_tri] = Inr st1"
    "mirrorMesh ex_cfg ex_two_verts [ex_flat_tri] = Inr (count, st)"
    "count = unmirrored (searchData st1)"
    "unmirrored (searchData st) \<le> count" "count \<le> length ex_two_verts"
    and out: "if count = length ex_two_verts
       then st = st1 \<and> Some \<lparr>ob_verts = [(1/4, 1/4, - 1), (1/4, 13/4, 1)], normals_flipped = True\<rparr> = None \<and>
            [Warning_not_all_intersect 1] = [Warning_no_mirror_created]
       else Some \<lparr>ob_verts = [(1/4, 1/4, - 1), (1/4, 13/4, 1)], normals_flipped = True\<rparr> =
              Some \<lparr>ob_verts = map vco (mesh_verts st), normals_flipped = True\<rparr> \<and>
            [Warning_not_all_intersect 1] = (if count = 0 then [] else [Warning_not_all_intersect count])"
    by blast
  moreover from out have
    "[Warning_not_all_intersect 1] = (if count = 0 then [] else [Warning_not_all_intersect count])"
    by (simp split: if_splits)
  ultimately show ?thesis using h by blast
qed

text \<open>
  Claim C2 as stated fails where the sweep runs (\<open>closestOnly\<close>, not \<open>onlyIntersecting\<close>): of
  two joined vertices the first meets the triangle and the second does not. The sweep
  mirrors the second over the plane of the first one's triangle, so both vertices are
  moved and none is left without a record; the count returned is still 1, and the warning
  for one vertex is reported.
\<close>

theorem mirrorMesh_count_counterexample:
  "(\<exists>st. mirrorMesh ex_sweep_cfg ex_two_verts [ex_flat_tri] = Inr (1, st) \<and>
        unmirrored (searchData st) = 0 \<and> mirrorLog st = [0, 1] \<and>
        map vco (mesh_verts st) = [(1/4, 1/4, - 1), (1/4, 13/4, - 1)]) \<and>
   execute_mesh ex_sweep_cfg ex_two_verts [ex_flat_tri] =
     Inr (Some \<lparr>ob_verts = [(1/4, 1/4, - 1), (1/4, 13/4, - 1)], normals_flipped = True\<rparr>,
          [Warning_not_all_intersect 1])"
  by (simp add: execute_mesh_def mirror_eval ex_sweep_cfg_def ex_two_verts_def ex_flat_tri_def upt2)

section \<open>The projection engine (projection\_ops/proj\_data.py)\<close>

subsection \<open>Data\<close>

text \<open>
  A point of the UV map, and a \<open>3 \<times> 3\<close> matrix by its columns (\<open>m.col[0]\<close>, \<open>m.col[1]\<close>,
  \<open>m.col[2]\<close>).
\<close>

type_synonym vec2 = "real \<times> real"

fun v2add :: "vec2 \<Rightarrow> vec2 \<Rightarrow> vec2" where
  "v2add (a1, a2) (b1, b2) = (a1 + b1, a2 + b2)"

fun v2sub :: "vec2 \<Rightarrow> vec2 \<Rightarrow> vec2" where
  "v2sub (a1, a2) (b1, b2) = (a1 - b1, a2 - b2)"

fun v2div :: "vec2 \<Rightarrow> real \<Rightarrow> vec2" where
  "v2div (a1, a2) k = (a1 / k, a2 / k)"

record Matrix =
  col0 :: vec3
  col1 :: vec3
  col2 :: vec3

text \<open>The attributes of \<open>Setting\<close> that the functions below read.\<close>

record Setting =
  smooth :: bool
  depth :: real
  scalar_z :: real

subsection \<open>zUpFindAxis\<close>

text \<open>
  \<open>zUpFindAxis(meshAxis, camAxis)\<close>. \<open>sign\<close> comes from \<open>funcs_math.py\<close>, which is not
  among the sources: it is a parameter.
\<close>

definition zUpFindAxis :: "(real \<Rightarrow> real) \<Rightarrow> Matrix \<Rightarrow> Matrix \<Rightarrow> Matrix" where
  "zUpFindAxis sign meshAxis camAxis =
     (let xDot = dot (col0 meshAxis) (col2 camAxis);
          yDot = dot (col1 meshAxis) (col2 camAxis);
          zDot = dot (col2 meshAxis) (col2 camAxis)
      in if \<bar>xDot\<bar> > max \<bar>yDot\<bar> \<bar>zDot\<bar> then
           \<lparr>col0 = smul (sign xDot) (col2 meshAxis), col1 = col1 meshAxis,
            col2 = cross (col0 meshAxis) (col1 meshAxis)\<rparr>
         else if \<bar>yDot\<bar> > \<bar>zDot\<bar> then
           \<lparr>col0 = col0 meshAxis, col1 = smul (sign yDot) (col2 meshAxis),
            col2 = cross (col0 meshAxis) (col1 meshAxis)\<rparr>
         else
           \<lparr>col0 = smul (- sign zDot) (col0 meshAxis), col1 = col1 meshAxis,
            col2 = cross (col0 meshAxis) (col1 meshAxis)\<rparr>)"

subsection \<open>Projecting a vertex onto a face\<close>

text \<open>
  Modelled from the spec: \<open>averageCo\<close>, \<open>averageNorm\<close> (\<open>funcs_tri.py\<close>) and \<open>clamp\<close>
  (\<open>funcs_math.py\<close>) are not among the sources. The spec has the projected position as
  the barycentric interpolation of the triangle's vertex positions, the smooth normal as
  the interpolated normal, and the clamp as the clamp of a weight into \<open>[0, 1]\<close>.
\<close>

fun averageCo :: "BMFace \<Rightarrow> vec3 \<Rightarrow> vec3" where
  "averageCo face (u, v, w) =
     vadd (vadd (smul u (co (v0 face))) (smul v (co (v1 face)))) (smul w (co (v2 face)))"

fun averageNorm :: "BMFace \<Rightarrow> vec3 \<Rightarrow> vec3" where
  "averageNorm face (u, v, w) =
     vadd (vadd (smul u (normal (v0 face))) (smul v (normal (v1 face)))) (smul w (normal (v2 face)))"

definition clamp :: "real \<Rightarrow> real" where
  "clamp x = max 0 (min 1 x)"

text \<open>\<open>calcVertProjPoint(face, uvw, depth)\<close>\<close>

definition calcVertProjPoint :: "Setting \<Rightarrow> BMFace \<Rightarrow> vec3 \<Rightarrow> real \<Rightarrow> vec3" where
  "calcVertProjPoint S face uvw d =
     (let d' = d + depth S;
          c = averageCo face uvw
      in if smooth S then vadd c (smul d' (averageNorm face uvw))
         else vadd c (smul d' (fnormal face)))"

text \<open>
  \<open>calcVertProjPointClamp(face, uvw, depth)\<close>: \<open>co\<close> is computed first, from the weights as
  they come in; the three assignments to \<open>uvw.x\<close>, \<open>uvw.y\<close>, \<open>uvw.z\<close> stand in the
  \<open>Setting.smooth\<close> branch.
\<close>

definition calcVertProjPointClamp :: "Setting \<Rightarrow> BMFace \<Rightarrow> vec3 \<Rightarrow> real \<Rightarrow> vec3" where
  "calcVertProjPointClamp S face uvw d =
     (let d' = d + depth S;
          c = averageCo face uvw
      in if smooth S then
           (case uvw of (x, y, z) \<Rightarrow>
              vadd c (smul d' (averageNorm face (clamp x, clamp y, clamp z))))
         else vadd c (smul d' (fnormal face)))"

text \<open>
  \<open>ProjectionData.projectVert(vert, vertSource, bounds)\<close>. \<open>bounds.calcUVPoint\<close> and the
  two queries of the partition grid (\<open>bound.py\<close>, \<open>partition_grid.py\<close>) are not among the
  sources: they are parameters (of the closest-triangle query the distance, the face and
  the weights; the edge it also returns is never read). The result is the new \<open>vert.co\<close>, the selection flag of
  the vertex, and the pair the function returns.
\<close>

record grid_queries =
  calcUVPoint :: "vec3 \<Rightarrow> vec3"
  trace_point_uv :: "vec2 \<Rightarrow> bool \<times> vec3 \<times> BMFace"
  trace_close_uv :: "vec2 \<Rightarrow> real \<times> BMFace option \<times> vec3"

definition projectVert ::
  "grid_queries \<Rightarrow> Setting \<Rightarrow> vec3 \<Rightarrow> vec3 \<Rightarrow> vec3 \<times> bool \<times> (bool \<times> bool)" where
  "projectVert env S vert_co vertSource_co =
     (case calcUVPoint env vertSource_co of (uvx, uvy, uvz) \<Rightarrow>
        (case trace_point_uv env (uvx, uvy) of (intersect, uvw, face) \<Rightarrow>
           if intersect then (calcVertProjPoint S face uvw (uvz * scalar_z S), False, (True, True))
           else
             (case trace_close_uv env (uvx, uvy) of (distance, face', uvw') \<Rightarrow>
                (case face' of
                   None \<Rightarrow> (vert_co, True, (False, False))
                 | Some f \<Rightarrow> (calcVertProjPointClamp S f uvw' (uvz * scalar_z S), True, (True, False))))))"

subsection \<open>The bounds of a source mesh\<close>

text \<open>
  What \<open>ProjectionData\<close> holds of the target, for a type \<open>'f\<close> of target faces. The ray
  cast of the BVH tree (\<open>self.bvh.ray_cast\<close>, which returns location, normal, face index
  and distance, or \<open>None\<close>s) is the host's; the tree is built from \<open>self.bmesh\<close>, and the
  model's ray cast returns the face \<open>self.bmesh.faces[ind]\<close> itself. \<open>pointInTriangle\<close>,
  \<open>uv_Area\<close> and \<open>averageTexCoord\<close> (\<open>funcs_tri.py\<close>) are not among the sources:
  they are parameters, the last two with the UV layer \<open>self.uv_lay\<close> fixed.
\<close>

record 'f ProjectionData =
  bvh_ray_cast :: "vec3 \<Rightarrow> vec3 \<Rightarrow> real \<Rightarrow> (vec3 \<times> vec3 \<times> 'f \<times> real) option"
  face_co :: "'f \<Rightarrow> vec3 \<times> vec3 \<times> vec3"
  pointInTriangle :: "vec3 \<Rightarrow> vec3 \<Rightarrow> vec3 \<Rightarrow> vec3 \<Rightarrow> bool \<times> real \<times> real \<times> real"
  uv_Area :: "'f \<Rightarrow> real"
  averageTexCoord :: "'f \<Rightarrow> vec3 \<Rightarrow> vec2"
  cameraAxis :: Matrix
  cameraPos :: vec3
  ortho :: bool

text \<open>\<open>Vector.normalize\<close> of the host: a vector of length zero stays as it is.\<close>

definition normalized :: "vec3 \<Rightarrow> vec3" where
  "normalized a = (if vlength a = 0 then a else smul (1 / vlength a) a)"

text \<open>\<open>getCameraAxis(target_co)\<close>\<close>

definition getCameraAxis :: "'f ProjectionData \<Rightarrow> vec3 \<Rightarrow> vec3" where
  "getCameraAxis pd target_co =
     (if ortho pd then smul (- 1) (col2 (cameraAxis pd))
      else normalized (vsub target_co (cameraPos pd)))"

text \<open>
  \<open>ray_cast_target(origin, maxDist = 10000)\<close>: \<open>None\<close> stands for the triple
  \<open>(None, None, None)\<close>.
\<close>

definition ray_cast_target :: "'f ProjectionData \<Rightarrow> vec3 \<Rightarrow> real \<Rightarrow> ('f \<times> real \<times> vec3) option" where
  "ray_cast_target pd origin maxDist =
     (case bvh_ray_cast pd origin (getCameraAxis pd origin) maxDist of
        None \<Rightarrow> None
      | Some (loc, nor, face, distance) \<Rightarrow>
          (case face_co pd face of (a, b, c) \<Rightarrow>
             (case pointInTriangle pd loc a b c of (valid, u, v, w) \<Rightarrow>
                if \<not> valid then None else Some (face, distance, (u, v, w)))))"

text \<open>
  \<open>traceUVTarget(corner, centerPos, centerTex)\<close>: the loop \<open>for x in range(5)\<close>, over the
  list of the values of \<open>x\<close> still to come.
\<close>

fun traceUVTarget_loop :: "'f ProjectionData \<Rightarrow> vec3 \<Rightarrow> vec3 \<Rightarrow> vec2 \<Rightarrow> nat list \<Rightarrow> vec2 option" where
  "traceUVTarget_loop pd corner centerPos centerTex [] = None"
| "traceUVTarget_loop pd corner centerPos centerTex (x # xs) =
     (let mult = (1 / 2) ^ x;
          trace_pos = vadd (smul mult (vsub corner centerPos)) centerPos
      in case ray_cast_target pd trace_pos 10000 of
           None \<Rightarrow> traceUVTarget_loop pd corner centerPos centerTex xs
         | Some (face, distance, uvw) \<Rightarrow>
             if uv_Area pd face > 0
             then Some (v2add (v2div (v2sub (averageTexCoord pd face uvw) centerTex) mult) centerTex)
             else traceUVTarget_loop pd corner centerPos centerTex xs)"

definition traceUVTarget :: "'f ProjectionData \<Rightarrow> vec3 \<Rightarrow> vec3 \<Rightarrow> vec2 \<Rightarrow> vec2 option" where
  "traceUVTarget pd corner centerPos centerTex =
     traceUVTarget_loop pd corner centerPos centerTex [0 ..< 5]"

text \<open>
  \<open>calculateBounds(mesh, alignedAxis, meshPos, meshName)\<close>. \<open>findMinMax\<close> and
  \<open>Bounds.From_Corners\<close> (\<open>funcs_blender.py\<close>, \<open>bound.py\<close>) are not among the sources:
  the box \<open>(vMin, vMax)\<close> of the mesh is an argument and \<open>From_Corners\<close> a parameter. The
  result is the bounds, or \<open>None\<close>, and the warnings reported.
\<close>

datatype warning =
    Center_did_not_project string
  | Could_not_project_properly string
  | Target_area_is_zero string

text \<open>The loop \<open>for i in range(len(corners))\<close>: the traced corners, or \<open>None\<close> at the first
  corner that cannot be traced.\<close>

fun trace_corners :: "'f ProjectionData \<Rightarrow> vec3 \<Rightarrow> vec2 \<Rightarrow> vec3 list \<Rightarrow> vec2 list option" where
  "trace_corners pd meshPos centerTex [] = Some []"
| "trace_corners pd meshPos centerTex (corner # corners) =
     (case traceUVTarget pd corner meshPos centerTex of
        None \<Rightarrow> None
      | Some tex \<Rightarrow>
          (case trace_corners pd meshPos centerTex corners of
             None \<Rightarrow> None
           | Some texs \<Rightarrow> Some (tex # texs)))"

definition mesh_corners :: "vec3 \<times> vec3 \<Rightarrow> Matrix \<Rightarrow> vec3 \<Rightarrow> vec3 list" where
  "mesh_corners box alignedAxis meshPos =
     (case box of ((minx, miny, minz), (maxx, maxy, maxz)) \<Rightarrow>
        [vadd (vadd (smul minx (col0 alignedAxis)) (smul maxy (col1 alignedAxis))) meshPos,
         vadd (vadd (smul maxx (col0 alignedAxis)) (smul maxy (col1 alignedAxis))) meshPos,
         vadd (vadd (smul maxx (col0 alignedAxis)) (smul miny (col1 alignedAxis))) meshPos,
         vadd (vadd (smul minx (col0 alignedAxis)) (smul miny (col1 alignedAxis))) meshPos])"

definition calculateBounds ::
  "'f ProjectionData \<Rightarrow> (vec2 list \<Rightarrow> vec2 \<Rightarrow> vec3 \<times> vec3 \<Rightarrow> 'b option) \<Rightarrow>
   vec3 \<times> vec3 \<Rightarrow> Matrix \<Rightarrow> vec3 \<Rightarrow> string \<Rightarrow> 'b option \<times> warning list" where
  "calculateBounds pd From_Corners box alignedAxis meshPos meshName =
     (case ray_cast_target pd meshPos 10000 of
        None \<Rightarrow> (None, [Center_did_not_project meshName])
      | Some (cFace, distance, uvw) \<Rightarrow>
          let centerTex = averageTexCoord pd cFace uvw
          in (case trace_corners pd meshPos centerTex (mesh_corners box alignedAxis meshPos) of
                None \<Rightarrow> (None, [Could_not_project_properly meshName])
              | Some corners \<Rightarrow>
                  (case From_Corners corners centerTex box of
                     None \<Rightarrow> (None, [Target_area_is_zero meshName])
                   | Some bound \<Rightarrow> (Some bound, []))))"

text \<open>
  \<open>generateSourceData(ob_list, scene)\<close> with \<open>createSourceBmesh\<close>: a selected object is
  given by its name, whether it is a mesh, and what \<open>createSourceBmesh\<close> computes before
  it calls \<open>calculateBounds\<close> (the box of the oriented mesh, the axes, the location; these
  come from \<open>createBmesh\<close> and the orientation functions, outside the sources). The result
  is the list \<open>meshList\<close>, as names with bounds, and the warnings.
\<close>

record source_object =
  ob_name :: string
  ob_is_mesh :: bool
  ob_box :: "vec3 \<times> vec3"
  ob_axis :: Matrix
  ob_location :: vec3

fun generateSourceData ::
  "'f ProjectionData \<Rightarrow> (vec2 list \<Rightarrow> vec2 \<Rightarrow> vec3 \<times> vec3 \<Rightarrow> 'b option) \<Rightarrow> string \<Rightarrow>
   source_object list \<Rightarrow> (string \<times> 'b) list \<times> warning list" where
  "generateSourceData pd From_Corners target_ob [] = ([], [])"
| "generateSourceData pd From_Corners target_ob (ob # obs) =
     (case generateSourceData pd From_Corners target_ob obs of (meshList, ws) \<Rightarrow>
        if ob_is_mesh ob \<and> ob_name ob \<noteq> target_ob then
          (case calculateBounds pd From_Corners (ob_box ob) (ob_axis ob) (ob_location ob) (ob_name ob) of
             (None, ws') \<Rightarrow> (meshList, ws' @ ws)
           | (Some bounds, ws') \<Rightarrow> ((ob_name ob, bounds) # meshList, ws' @ ws))
        else (meshList, ws))"

section \<open>Properties of the projection engine\<close>

subsection \<open>The axes zUpFindAxis keeps\<close>

text \<open>
  Claim C7. With \<open>dx\<close>, \<open>dy\<close>, \<open>dz\<close> the magnitudes of the dot products of the mesh axes
  with the viewing axis \<open>camAxis.col[2]\<close>: the third column of the result is the cross
  product of the mesh X and Y axes, and the two footprint columns are (up to the factor
  \<open>sign\<close> gives) the two mesh axes other than the one that faces the camera. That one is X
  only when \<open>dx\<close> is strictly the largest (Y and Z are kept); it is Y when \<open>dy\<close> is at least
  \<open>dx\<close> and strictly larger than \<open>dz\<close> (X and Z are kept); it is Z otherwise, when \<open>dz\<close> is
  at least both (X and Y are kept). So the kept axes have the smallest magnitudes, and
  among equal magnitudes X is kept before Y and Y before Z.
\<close>

theorem zUpFindAxis_keeps_most_perpendicular:
  "(let dx = \<bar>dot (col0 m) (col2 c)\<bar>; dy = \<bar>dot (col1 m) (col2 c)\<bar>; dz = \<bar>dot (col2 m) (col2 c)\<bar>;
        r = zUpFindAxis sign m c
    in col2 r = cross (col0 m) (col1 m) \<and>
       ((dy < dx \<and> dz < dx \<and>
           col0 r = smul (sign (dot (col0 m) (col2 c))) (col2 m) \<and> col1 r = col1 m) \<or>
        (dx \<le> dy \<and> dz < dy \<and>
           col0 r = col0 m \<and> col1 r = smul (sign (dot (col1 m) (col2 c))) (col2 m)) \<or>
        (dx \<le> dz \<and> dy \<le> dz \<and>
           col0 r = smul (- sign (dot (col2 m) (col2 c))) (col0 m) \<and> col1 r = col1 m)))"
  unfolding zUpFindAxis_def Let_def by auto

text \<open>A tie of X and Y (both dot products are 1, that of Z is 0): X is kept, Y is replaced.\<close>

lemma zUpFindAxis_tie_example:
  "zUpFindAxis sgn \<lparr>col0 = (1, 0, 0), col1 = (0, 1, 0), col2 = (0, 0, 1)\<rparr>
     \<lparr>col0 = (1, 0, 0), col1 = (0, 1, 0), col2 = (1, 1, 0)\<rparr> =
   \<lparr>col0 = (1, 0, 0), col1 = (0, 0, 1), col2 = (0, 0, 1)\<rparr>"
  by (simp add: zUpFindAxis_def)

subsection \<open>The weights of the closest-triangle fallback\<close>

lemma clamp_range: "0 \<le> clamp x \<and> clamp x \<le> 1"
  by (simp add: clamp_def)

lemma clamp_id: "0 \<le> x \<Longrightarrow> x \<le> 1 \<Longrightarrow> clamp x = x"
  by (simp add: clamp_def)

text \<open>
  Claim C3, as amended. In the fallback (no containing triangle, the closest-triangle
  query gives a face and weights) \<open>projectVert\<close> moves the vertex to what
  \<open>calcVertProjPointClamp\<close> returns. That position is interpolated with the weights as
  the query returns them, in smooth and in flat mode; the clamp into \<open>[0, 1]\<close> is applied
  in smooth mode only, weight by weight, and only the interpolated normal uses the
  clamped weights (each in \<open>[0, 1]\<close>). In flat mode, and whenever the weights already lie
  in \<open>[0, 1]\<close>, the result is that of \<open>calcVertProjPoint\<close>.
\<close>

theorem calcVertProjPointClamp_weights:
  "calcVertProjPointClamp S face (u, v, w) d =
     vadd (averageCo face (u, v, w))
          (smul (d + depth S)
             (if smooth S then averageNorm face (clamp u, clamp v, clamp w) else fnormal face)) \<and>
   0 \<le> clamp u \<and> clamp u \<le> 1 \<and> 0 \<le> clamp v \<and> clamp v \<le> 1 \<and> 0 \<le> clamp w \<and> clamp w \<le> 1 \<and>
   (\<not> smooth S \<longrightarrow> calcVertProjPointClamp S face (u, v, w) d = calcVertProjPoint S face (u, v, w) d) \<and>
   (0 \<le> u \<and> u \<le> 1 \<and> 0 \<le> v \<and> v \<le> 1 \<and> 0 \<le> w \<and> w \<le> 1 \<longrightarrow>
      calcVertProjPointClamp S face (u, v, w) d = calcVertProjPoint S face (u, v, w) d) \<and>
   (\<forall>env vco src x y z dst f.
      calcUVPoint env src = (x, y, z) \<and> \<not> fst (trace_point_uv env (x, y)) \<and>
      trace_close_uv env (x, y) = (dst, Some f, (u, v, w)) \<longrightarrow>
      projectVert env S vco src = (calcVertProjPointClamp S f (u, v, w) (z * scalar_z S), True, (True, False)))"
  by (auto simp: calcVertProjPointClamp_def calcVertProjPoint_def Let_def clamp_range clamp_id
      projectVert_def split: prod.splits)

definition ex_flat_setting :: Setting where
  "ex_flat_setting = \<lparr>smooth = False, depth = 0, scalar_z = 1\<rparr>"

definition ex_smooth_setting :: Setting where
  "ex_smooth_setting = \<lparr>smooth = True, depth = 0, scalar_z = 1\<rparr>"

definition ex_no_containing :: grid_queries where
  "ex_no_containing =
     \<lparr>calcUVPoint = (\<lambda>p. p),
      trace_point_uv = (\<lambda>uv. (False, (0, 0, 0), ex_flat_tri)),
      trace_close_uv = (\<lambda>uv. (1, Some ex_flat_tri, (1/2, 1/4, 1/4)))\<rparr>"

theorem calcVertProjPointClamp_weights_witness:
  "\<not> smooth ex_flat_setting \<and>
   calcVertProjPointClamp ex_flat_setting ex_flat_tri (1/2, 1/4, 1/4) 1 = (1/4, 1/4, 1) \<and>
   calcVertProjPoint ex_flat_setting ex_flat_tri (1/2, 1/4, 1/4) 1 = (1/4, 1/4, 1) \<and>
   calcUVPoint ex_no_containing (3, 3, 1) = (3, 3, 1) \<and>
   \<not> fst (trace_point_uv ex_no_containing (3, 3)) \<and>
   trace_close_uv ex_no_containing (3, 3) = (1, Some ex_flat_tri, (1/2, 1/4, 1/4)) \<and>
   projectVert ex_no_containing ex_flat_setting (3, 3, 1) (3, 3, 1) =
     ((1/4, 1/4, 1), True, (True, False))"
proof -
  have h1: "\<not> smooth ex_flat_setting" by (simp add: ex_flat_setting_def)
  have h2: "calcUVPoint ex_no_containing (3, 3, 1) = (3, 3, 1) \<and>
            \<not> fst (trace_point_uv ex_no_containing (3, 3)) \<and>
            trace_close_uv ex_no_containing (3, 3) = (1, Some ex_flat_tri, (1/2, 1/4, 1/4))"
    by (simp add: ex_no_containing_def)
  have h3: "calcVertProjPoint ex_flat_setting ex_flat_tri (1/2, 1/4, 1/4) 1 = (1/4, 1/4, 1)"
    by (simp add: calcVertProjPoint_def ex_flat_setting_def ex_flat_tri_def)
  have h4: "scalar_z ex_flat_setting = 1" by (simp add: ex_flat_setting_def)
  from calcVertProjPointClamp_weights[of ex_flat_setting ex_flat_tri "1/2" "1/4" "1/4" 1] h1
  have "calcVertProjPointClamp ex_flat_setting ex_flat_tri (1/2, 1/4, 1/4) 1 =
        calcVertProjPoint ex_flat_setting ex_flat_tri (1/2, 1/4, 1/4) 1" by blast
  with h3 have c: "calcVertProjPointClamp ex_flat_setting ex_flat_tri (1/2, 1/4, 1/4) 1 = (1/4, 1/4, 1)"
    by simp
  from calcVertProjPointClamp_weights[of ex_flat_setting ex_flat_tri "1/2" "1/4" "1/4" 1] h2
  have "projectVert ex_no_containing ex_flat_setting (3, 3, 1) (3, 3, 1) =
     (calcVertProjPointClamp ex_flat_setting ex_flat_tri (1/2, 1/4, 1/4) (1 * scalar_z ex_flat_setting),
      True, (True, False))"
    by blast
  with c h4 have "projectVert ex_no_containing ex_flat_setting (3, 3, 1) (3, 3, 1) =
     ((1/4, 1/4, 1), True, (True, False))" by simp
  with h1 h2 h3 c show ?thesis by simp
qed

text \<open>
  Claim C3 as stated fails: with the weights \<open>(-1, 2, 0)\<close> the position returned is
  \<open>(2, 0, 0)\<close>, outside the triangle, in flat mode and in smooth mode, where weights
  clamped before the interpolation would give the corner \<open>(1, 0, 0)\<close>; and the clamped
  weights of \<open>(3/5, 3/5, -1/5)\<close> add up to \<open>6/5\<close>.
\<close>

theorem calcVertProjPointClamp_counterexample:
  "calcVertProjPointClamp ex_flat_setting ex_flat_tri (- 1, 2, 0) 0 = (2, 0, 0) \<and>
   calcVertProjPointClamp ex_smooth_setting ex_flat_tri (- 1, 2, 0) 0 = (2, 0, 0) \<and>
   averageCo ex_flat_tri (clamp (- 1), clamp 2, clamp 0) = (1, 0, 0) \<and>
   clamp (3/5) + clamp (3/5) + clamp (- (1/5)) = 6/5"
  by (simp add: calcVertProjPointClamp_def ex_flat_setting_def ex_smooth_setting_def
      ex_flat_tri_def clamp_def)

subsection \<open>The attempts of traceUVTarget\<close>

text \<open>
  The point of the attempt \<open>k\<close>, what the attempt gives when it is accepted (a face is hit
  and its UV area is positive: the texture coordinate found), and the rescaling of a
  texture coordinate found at the attempt \<open>k\<close>.
\<close>

definition trace_point :: "vec3 \<Rightarrow> vec3 \<Rightarrow> nat \<Rightarrow> vec3" where
  "trace_point corner centerPos k = vadd (smul ((1 / 2) ^ k) (vsub corner centerPos)) centerPos"

definition attempt :: "'f ProjectionData \<Rightarrow> vec3 \<Rightarrow> vec3 \<Rightarrow> nat \<Rightarrow> vec2 option" where
  "attempt pd corner centerPos k =
     (case ray_cast_target pd (trace_point corner centerPos k) 10000 of
        None \<Rightarrow> None
      | Some (face, distance, uvw) \<Rightarrow>
          if uv_Area pd face > 0 then Some (averageTexCoord pd face uvw) else None)"

definition rescaled :: "vec2 \<Rightarrow> nat \<Rightarrow> vec2 \<Rightarrow> vec2" where
  "rescaled centerTex k tex = v2add (v2div (v2sub tex centerTex) ((1 / 2) ^ k)) centerTex"

lemma traceUVTarget_loop_Cons:
  "traceUVTarget_loop pd corner centerPos centerTex (x # xs) =
     (case attempt pd corner centerPos x of
        None \<Rightarrow> traceUVTarget_loop pd corner centerPos centerTex xs
      | Some tex \<Rightarrow> Some (rescaled centerTex x tex))"
  by (simp add: attempt_def trace_point_def rescaled_def Let_def split: option.splits prod.splits)

lemma traceUVTarget_loop_find:
  "traceUVTarget_loop pd corner centerPos centerTex ks =
     (case List.find (\<lambda>k. attempt pd corner centerPos k \<noteq> None) ks of
        None \<Rightarrow> None
      | Some k \<Rightarrow> map_option (rescaled centerTex k) (attempt pd corner centerPos k))"
proof (induction ks)
  case Nil
  show ?case by simp
next
  case (Cons x xs)
  show ?case
  proof (cases "attempt pd corner centerPos x")
    case None
    with Cons show ?thesis by (simp only: traceUVTarget_loop_Cons find.simps option.case) simp
  next
    case (Some tex)
    then show ?thesis by (simp only: traceUVTarget_loop_Cons find.simps option.case) simp
  qed
qed

lemma trace_point_0: "trace_point corner centerPos 0 = corner"
  by (cases corner; cases centerPos) (simp add: trace_point_def)

lemma traceUVTarget_None:
  "traceUVTarget pd corner centerPos centerTex = None \<longleftrightarrow>
   (\<forall>k<5. attempt pd corner centerPos k = None)"
proof -
  have "traceUVTarget pd corner centerPos centerTex = None \<longleftrightarrow>
        List.find (\<lambda>k. attempt pd corner centerPos k \<noteq> None) [0..<5] = None"
    by (cases "List.find (\<lambda>k. attempt pd corner centerPos k \<noteq> None) [0..<5]")
       (auto simp: traceUVTarget_def traceUVTarget_loop_find dest: find_Some_iff[THEN iffD1]
             simp del: not_None_eq)
  also have "\<dots> \<longleftrightarrow> (\<forall>k<5. attempt pd corner centerPos k = None)"
    by (simp add: find_None_iff del: not_None_eq)
  finally show ?thesis .
qed

lemma traceUVTarget_Some:
  "traceUVTarget pd corner centerPos centerTex = Some r \<longleftrightarrow>
   (\<exists>k<5. \<exists>tex. attempt pd corner centerPos k = Some tex \<and>
      (\<forall>j<k. attempt pd corner centerPos j = None) \<and> r = rescaled centerTex k tex)"
  (is "?L \<longleftrightarrow> ?R")
proof
  assume ?L
  then obtain k tex where f: "List.find (\<lambda>k. attempt pd corner centerPos k \<noteq> None) [0..<5] = Some k"
    and a: "attempt pd corner centerPos k = Some tex" and r: "r = rescaled centerTex k tex"
    by (cases "List.find (\<lambda>k. attempt pd corner centerPos k \<noteq> None) [0..<5]")
       (auto simp: traceUVTarget_def traceUVTarget_loop_find simp del: not_None_eq)
  from f obtain i where i: "i < length [0..<5]" "k = [0..<5] ! i"
    "\<forall>j<i. \<not> attempt pd corner centerPos ([0..<5] ! j) \<noteq> None"
    unfolding find_Some_iff by blast
  from i(1,2) have ki: "k = i" "k < 5" by simp_all
  have "\<forall>j<k. attempt pd corner centerPos j = None"
  proof (intro allI impI)
    fix j assume "j < k"
    with ki i(3) have "\<not> attempt pd corner centerPos ([0..<5] ! j) \<noteq> None" by simp
    moreover from \<open>j < k\<close> ki have "[0..<5] ! j = j" by simp
    ultimately show "attempt pd corner centerPos j = None" by (simp del: not_None_eq)
  qed
  with ki a r show ?R by blast
next
  assume ?R
  then obtain k tex where k: "k < 5" and a: "attempt pd corner centerPos k = Some tex"
    and n: "\<forall>j<k. attempt pd corner centerPos j = None" and r: "r = rescaled centerTex k tex"
    by blast
  have "List.find (\<lambda>k. attempt pd corner centerPos k \<noteq> None) [0..<5] = Some k"
    unfolding find_Some_iff
  proof (intro exI[of _ k] conjI allI impI)
    show "k < length [0..<5]" using k by simp
    show "attempt pd corner centerPos ([0..<5] ! k) \<noteq> None" using k a by (simp del: not_None_eq)
    show "k = [0..<5] ! k" using k by simp
    fix j assume "j < k"
    with k have "[0..<5] ! j = j" by simp
    with n \<open>j < k\<close> show "\<not> attempt pd corner centerPos ([0..<5] ! j) \<noteq> None"
      by (simp del: not_None_eq)
  qed
  with a r show ?L by (simp add: traceUVTarget_def traceUVTarget_loop_find)
qed

lemma trace_corners_None:
  "corner \<in> set corners \<Longrightarrow> traceUVTarget pd corner meshPos centerTex = None \<Longrightarrow>
   trace_corners pd meshPos centerTex corners = None"
  by (induction corners) (auto split: option.splits)

text \<open>
  Claim C6. The attempt 0 is a ray cast at the corner itself, the attempt \<open>k\<close> one at
  \<open>(corner - center) * 0.5^k + center\<close>. \<open>traceUVTarget\<close> returns \<open>None\<close> exactly when all
  five attempts \<open>k = 0, ..., 4\<close> fail; it returns \<open>r\<close> exactly when some attempt \<open>k < 5\<close> is
  accepted, every attempt before it failed, and \<open>r\<close> is the offset of the found texture
  coordinate from the center's, divided by \<open>0.5^k\<close>, added to the center's. When the center
  projects and a corner of the mesh fails all five attempts, \<open>calculateBounds\<close> returns
  no bounds and reports the warning, and then \<open>generateSourceData\<close> leaves the mesh out
  of its list and passes the warning on.
\<close>

theorem traceUVTarget_attempts:
  "trace_point corner centerPos 0 = corner \<and>
   (traceUVTarget pd corner centerPos centerTex = None \<longleftrightarrow>
      (\<forall>k<5. attempt pd corner centerPos k = None)) \<and>
   (\<forall>r. traceUVTarget pd corner centerPos centerTex = Some r \<longleftrightarrow>
      (\<exists>k<5. \<exists>tex. attempt pd corner centerPos k = Some tex \<and>
         (\<forall>j<k. attempt pd corner centerPos j = None) \<and>
         r = v2add (v2div (v2sub tex centerTex) ((1 / 2) ^ k)) centerTex)) \<and>
   (\<forall>cFace d uvw box axis From_Corners name.
      ray_cast_target pd centerPos 10000 = Some (cFace, d, uvw) \<and>
      centerTex = averageTexCoord pd cFace uvw \<and>
      corner \<in> set (mesh_corners box axis centerPos) \<and>
      traceUVTarget pd corner centerPos centerTex = None \<longrightarrow>
      calculateBounds pd From_Corners box axis centerPos name =
        (None :: 'b option, [Could_not_project_properly name])) \<and>
   (\<forall>ob obs From_Corners target_ob ws.
      ob_is_mesh ob \<and> ob_name ob \<noteq> target_ob \<and>
      calculateBounds pd From_Corners (ob_box ob) (ob_axis ob) (ob_location ob) (ob_name ob) =
        (None :: 'b option, ws) \<longrightarrow>
      generateSourceData pd From_Corners target_ob (ob # obs) =
        (fst (generateSourceData pd From_Corners target_ob obs),
         ws @ snd (generateSourceData pd From_Corners target_ob obs)))"
proof (intro conjI allI impI)
  show "trace_point corner centerPos 0 = corner" by (rule trace_point_0)
  show "traceUVTarget pd corner centerPos centerTex = None \<longleftrightarrow>
      (\<forall>k<5. attempt pd corner centerPos k = None)" by (rule traceUVTarget_None)
next
  fix r
  show "traceUVTarget pd corner centerPos centerTex = Some r \<longleftrightarrow>
      (\<exists>k<5. \<exists>tex. attempt pd corner centerPos k = Some tex \<and>
         (\<forall>j<k. attempt pd corner centerPos j = None) \<and>
         r = v2add (v2div (v2sub tex centerTex) ((1 / 2) ^ k)) centerTex)"
    using traceUVTarget_Some[of pd corner centerPos centerTex r] by (simp add: rescaled_def)
next
  fix cFace d uvw box axis and From_Corners :: "vec2 list \<Rightarrow> vec2 \<Rightarrow> vec3 \<times> vec3 \<Rightarrow> 'b option" and name
  assume h: "ray_cast_target pd centerPos 10000 = Some (cFace, d, uvw) \<and>
      centerTex = averageTexCoord pd cFace uvw \<and>
      corner \<in> set (mesh_corners box axis centerPos) \<and>
      traceUVTarget pd corner centerPos centerTex = None"
  then have c: "corner \<in> set (mesh_corners box axis centerPos)"
    and t: "traceUVTarget pd corner centerPos centerTex = None" by blast+
  from c t have "trace_corners pd centerPos centerTex (mesh_corners box axis centerPos) = None"
    by (rule trace_corners_None)
  with h show "calculateBounds pd From_Corners box axis centerPos name =
        (None, [Could_not_project_properly name])"
    by (simp add: calculateBounds_def Let_def)
next
  fix ob :: source_object and obs
    and From_Corners :: "vec2 list \<Rightarrow> vec2 \<Rightarrow> vec3 \<times> vec3 \<Rightarrow> 'b option" and target_ob ws
  assume "ob_is_mesh ob \<and> ob_name ob \<noteq> target_ob \<and>
      calculateBounds pd From_Corners (ob_box ob) (ob_axis ob) (ob_location ob) (ob_name ob) =
        (None, ws)"
  then show "generateSourceData pd From_Corners target_ob (ob # obs) =
        (fst (generateSourceData pd From_Corners target_ob obs),
         ws @ snd (generateSourceData pd From_Corners target_ob obs))"
    by (simp split: prod.splits)
qed

text \<open>A target that a ray meets only within one unit of the origin; its UV map is the
  identity on \<open>x\<close> and \<open>y\<close>.\<close>

definition ex_pd :: "nat ProjectionData" where
  "ex_pd = \<lparr>bvh_ray_cast = (\<lambda>origin direction maxDist.
                case origin of (x, y, z) \<Rightarrow>
                  if \<bar>x\<bar> \<le> 1 \<and> \<bar>y\<bar> \<le> 1 then Some ((x, y, 0), (0, 0, 1), 0, z) else None),
            face_co = (\<lambda>f. ((0, 0, 0), (1, 0, 0), (0, 1, 0))),
            pointInTriangle = (\<lambda>p a b c. case p of (x, y, z) \<Rightarrow> (True, x, y, 1 - x - y)),
            uv_Area = (\<lambda>f. 1),
            averageTexCoord = (\<lambda>f uvw. case uvw of (u, v, w) \<Rightarrow> (u, v)),
            cameraAxis = \<lparr>col0 = (1, 0, 0), col1 = (0, 1, 0), col2 = (0, 0, 1)\<rparr>,
            cameraPos = (0, 0, 10),
            ortho = True\<rparr>"

definition ex_From_Corners :: "vec2 list \<Rightarrow> vec2 \<Rightarrow> vec3 \<times> vec3 \<Rightarrow> (vec2 list) option" where
  "ex_From_Corners corners centerTex box = Some corners"

definition ex_wide_object :: source_object where
  "ex_wide_object = \<lparr>ob_name = ''Wide'', ob_is_mesh = True,
                      ob_box = ((- 64, - 64, 0), (64, 64, 0)),
                      ob_axis = \<lparr>col0 = (1, 0, 0), col1 = (0, 1, 0), col2 = (0, 0, 1)\<rparr>,
                      ob_location = (0, 0, 0)\<rparr>"

lemma upt5: "[0..<5] = [0, 1, 2, 3, 4]"
  by (simp add: upt_rec)

lemma ex_attempts_near:
  "attempt ex_pd (4, 0, 0) (0, 0, 0) 0 = None \<and> attempt ex_pd (4, 0, 0) (0, 0, 0) 1 = None \<and>
   attempt ex_pd (4, 0, 0) (0, 0, 0) 2 = Some (1, 0)"
  by (simp add: attempt_def trace_point_def ray_cast_target_def getCameraAxis_def ex_pd_def
      power_divide)

lemma ex_attempts_far:
  "k < 5 \<Longrightarrow> attempt ex_pd (- 64, 64, 0) (0, 0, 0) k = None"
proof -
  assume "k < 5"
  then have "k \<in> {0, 1, 2, 3, 4}" by auto
  then show ?thesis
    by (auto simp: attempt_def trace_point_def ray_cast_target_def getCameraAxis_def ex_pd_def
        power_divide)
qed

theorem traceUVTarget_attempts_witness:
  "traceUVTarget ex_pd (4, 0, 0) (0, 0, 0) (0, 0) = Some (4, 0) \<and>
   attempt ex_pd (4, 0, 0) (0, 0, 0) 0 = None \<and> attempt ex_pd (4, 0, 0) (0, 0, 0) 1 = None \<and>
   attempt ex_pd (4, 0, 0) (0, 0, 0) 2 = Some (1, 0) \<and>
   traceUVTarget ex_pd (- 64, 64, 0) (0, 0, 0) (0, 0) = None \<and>
   calculateBounds ex_pd ex_From_Corners (ob_box ex_wide_object) (ob_axis ex_wide_object)
       (ob_location ex_wide_object) (ob_name ex_wide_object) =
     (None, [Could_not_project_properly ''Wide'']) \<and>
   generateSourceData ex_pd ex_From_Corners ''Target'' [ex_wide_object] =
     ([], [Could_not_project_properly ''Wide''])"
proof -
  note near = traceUVTarget_attempts[of "(4, 0, 0)" "(0, 0, 0)" ex_pd "(0, 0)"]
  note far = traceUVTarget_attempts[of "(- 64, 64, 0)" "(0, 0, 0)" ex_pd "(0, 0)"]
  have "\<exists>k<5. \<exists>tex. attempt ex_pd (4, 0, 0) (0, 0, 0) k = Some tex \<and>
         (\<forall>j<k. attempt ex_pd (4, 0, 0) (0, 0, 0) j = None) \<and>
         (4, 0) = v2add (v2div (v2sub tex (0, 0)) ((1 / 2) ^ k)) (0, 0)"
  proof (intro exI[of _ 2] exI[of _ "(1, 0)"] conjI allI impI)
    show "(2::nat) < 5" by simp
    show "attempt ex_pd (4, 0, 0) (0, 0, 0) 2 = Some (1, 0)" using ex_attempts_near by simp
    show "(4, 0) = v2add (v2div (v2sub (1, 0) (0, 0)) ((1 / 2) ^ 2)) (0, 0)"
      by (simp add: power_divide)
    fix j :: nat assume "j < 2"
    then have "j = 0 \<or> j = 1" by auto
    then show "attempt ex_pd (4, 0, 0) (0, 0, 0) j = None" using ex_attempts_near by auto
  qed
  with near have t1: "traceUVTarget ex_pd (4, 0, 0) (0, 0, 0) (0, 0) = Some (4, 0)" by blast
  from far ex_attempts_far have t2: "traceUVTarget ex_pd (- 64, 64, 0) (0, 0, 0) (0, 0) = None"
    by blast
  have center: "ray_cast_target ex_pd (0, 0, 0) 10000 = Some (0, 0, (0, 0, 1))"
    by (simp add: ray_cast_target_def getCameraAxis_def ex_pd_def)
  have ctex: "(0, 0) = averageTexCoord ex_pd 0 (0, 0, 1)" by (simp add: ex_pd_def)
  have corner: "(- 64, 64, 0) \<in> set (mesh_corners (ob_box ex_wide_object) (ob_axis ex_wide_object) (0, 0, 0))"
    by (simp add: mesh_corners_def ex_wide_object_def)
  from far center ctex corner t2
  have cb: "calculateBounds ex_pd ex_From_Corners (ob_box ex_wide_object) (ob_axis ex_wide_object)
       (0, 0, 0) (ob_name ex_wide_object) =
     (None, [Could_not_project_properly (ob_name ex_wide_object)])" by blast
  have loc: "ob_location ex_wide_object = (0, 0, 0)" "ob_name ex_wide_object = ''Wide''"
    "ob_is_mesh ex_wide_object" by (simp_all add: ex_wide_object_def)
  from cb loc have cb': "calculateBounds ex_pd ex_From_Corners (ob_box ex_wide_object)
       (ob_axis ex_wide_object) (ob_location ex_wide_object) (ob_name ex_wide_object) =
     (None, [Could_not_project_properly ''Wide''])" by simp
  then have gs: "generateSourceData ex_pd ex_From_Corners ''Target'' [ex_wide_object] =
     ([], [Could_not_project_properly ''Wide''])" using loc by simp
  from t1 t2 ex_attempts_near cb' gs show ?thesis by simp
qed

end
